theory Spec2Isabelle
  imports Main "HOL-Library.AList" "HOL-Library.Sublist"
begin

section \<open>Python values and dictionaries\<close>

text \<open>
  The values that the documents of this service hold: \<open>None\<close>, text, a
  \<open>datetime\<close> (microseconds since the epoch) and an \<open>ObjectId\<close> (kept as its
  24-digit hexadecimal text, which is what \<open>str\<close> returns for it).
\<close>

datatype pyval = VNone | VStr string | VDate int | VOid string

text \<open>
  A \<open>dict\<close> with text keys is an association list in insertion order with distinct keys:
  \<open>d.get(k, default)\<close> is \<open>dict_get\<close>, \<open>d[k] = v\<close> is \<open>AList.update k v d\<close> (in place
  when the key is there, appended otherwise) and \<open>d.pop(k)\<close> removes with \<open>AList.delete\<close>.
\<close>

type_synonym dict = "(string \<times> pyval) list"

definition dict_get :: "dict \<Rightarrow> string \<Rightarrow> pyval \<Rightarrow> pyval" where
  "dict_get d k dflt = (case map_of d k of None \<Rightarrow> dflt | Some v \<Rightarrow> v)"

text \<open>Truth value of a Python value (\<open>bool(v)\<close>): \<open>None\<close> and the empty text are false.\<close>

fun truthy :: "pyval \<Rightarrow> bool" where
  "truthy VNone = False"
| "truthy (VStr s) = (s \<noteq> [])"
| "truthy (VDate t) = True"
| "truthy (VOid h) = True"

text \<open>\<open>a or b\<close>.\<close>

definition py_or :: "pyval \<Rightarrow> pyval \<Rightarrow> pyval" where
  "py_or a b = (if truthy a then a else b)"

text \<open>
  \<open>str(v)\<close>. The text of a \<open>datetime\<close> is the standard library's: \<open>isoformat\<close> is a
  parameter (separator, then the instant); \<open>str\<close> of a \<open>datetime\<close> is \<open>isoformat(' ')\<close>.
\<close>

fun py_str :: "(char \<Rightarrow> int \<Rightarrow> string) \<Rightarrow> pyval \<Rightarrow> string" where
  "py_str isoformat VNone = ''None''"
| "py_str isoformat (VStr s) = s"
| "py_str isoformat (VDate t) = isoformat (CHR '' '') t"
| "py_str isoformat (VOid h) = h"

section \<open>Template rendering\<close>

text \<open>
  \<open>str.replace(old, new)\<close>: a scan from the left that replaces each occurrence of \<open>old\<close>
  it meets and continues after it (occurrences found never overlap). With an empty \<open>old\<close>
  Python puts \<open>new\<close> before every character and at the end.
\<close>

fun replace_from :: "string \<Rightarrow> string \<Rightarrow> string \<Rightarrow> string" where
  "replace_from old new [] = []"
| "replace_from old new (c # cs) =
     (if prefix old (c # cs) then new @ replace_from old new (drop (length old - 1) cs)
      else c # replace_from old new cs)"

definition replace :: "string \<Rightarrow> string \<Rightarrow> string \<Rightarrow> string" where
  "replace s old new =
     (if old = [] then new @ concat (map (\<lambda>c. c # new) s) else replace_from old new s)"

text \<open>
  \<^verbatim>\<open>
  def render_template(template: str, data: dict) -> str:
      for key, value in {
          "First Name": data.get("first_name", ""),
          "Company Name": data.get("company_name", ""),
          "Job Title": data.get("job_title", ""),
          "Personalized Line": data.get("personalized_line", ""),
      }.items():
          template = template.replace(f"{{{{{key}}}}}", str(value or ""))
      return template
  \<close>
\<close>

definition placeholder :: "string \<Rightarrow> string" where
  "placeholder key = ''{{'' @ key @ ''}}''"

definition render_template :: "(char \<Rightarrow> int \<Rightarrow> string) \<Rightarrow> string \<Rightarrow> dict \<Rightarrow> string" where
  "render_template isoformat template data =
     fold (\<lambda>(key, value) template.
             replace template (placeholder key) (py_str isoformat (py_or value (VStr ''''))))
       [(''First Name'', dict_get data ''first_name'' (VStr '''')),
        (''Company Name'', dict_get data ''company_name'' (VStr '''')),
        (''Job Title'', dict_get data ''job_title'' (VStr '''')),
        (''Personalized Line'', dict_get data ''personalized_line'' (VStr ''''))]
       template"


section \<open>Serialization\<close>

text \<open>
  \<^verbatim>\<open>
  def serialize(doc):
      if not doc:
          return doc
      d = dict(doc)
      if "_id" in d:
          d["id"] = str(d.pop("_id"))
      for k, v in list(d.items()):
          if isinstance(v, datetime):
              d[k] = v.isoformat()
      return d
  \<close>
  \<open>serialize_copy\<close> is what happens to the copy \<open>d\<close>; \<open>serialize\<close> is the function on
  values (\<open>None\<close> and the empty dict are falsy and come back as they are).
\<close>

definition serialize_copy :: "(char \<Rightarrow> int \<Rightarrow> string) \<Rightarrow> dict \<Rightarrow> dict" where
  "serialize_copy isoformat doc =
     (let d = doc;
          d = (case map_of d ''_id'' of
                 None \<Rightarrow> d
               | Some v \<Rightarrow> AList.update ''id'' (VStr (py_str isoformat v)) (AList.delete ''_id'' d))
      in fold (\<lambda>(k, v) d. case v of VDate t \<Rightarrow> AList.update k (VStr (isoformat (CHR ''T'') t)) d
                                   | _ \<Rightarrow> d) d d)"

definition serialize :: "(char \<Rightarrow> int \<Rightarrow> string) \<Rightarrow> dict option \<Rightarrow> dict option" where
  "serialize isoformat doc =
     (case doc of
        None \<Rightarrow> None
      | Some d \<Rightarrow> if d = [] then Some d else Some (serialize_copy isoformat d))"

text \<open>
  The same call on objects: the store is the list of all dict objects, a reference is an
  index into it. \<open>dict(doc)\<close> allocates a new object, and every later write of the function
  goes to that object; a falsy argument is returned itself.
\<close>

type_synonym store = "dict list"

definition serialize_call ::
  "(char \<Rightarrow> int \<Rightarrow> string) \<Rightarrow> store \<Rightarrow> nat option \<Rightarrow> store \<times> nat option" where
  "serialize_call isoformat h doc =
     (case doc of
        None \<Rightarrow> (h, None)
      | Some r \<Rightarrow> if h ! r = [] then (h, Some r)
                  else (h @ [serialize_copy isoformat (h ! r)], Some (length h)))"

section \<open>The document store, the clock and the random source\<close>

text \<open>
  A stored document is the \<open>ObjectId\<close> the store gave it (its hexadecimal text) and its
  other fields; what a query returns is the dict with \<open>_id\<close> in front. No document this
  service inserts brings an \<open>_id\<close> of its own.
\<close>

type_synonym document = "string \<times> dict"

definition doc_dict :: "document \<Rightarrow> dict" where
  "doc_dict doc = (''_id'', VOid (fst doc)) # snd doc"

text \<open>
  What the run-time supplies: the successive readings of \<open>datetime.now(timezone.utc)\<close>,
  the successive raw draws of the random generator, the successive \<open>ObjectId\<close>s of the store
  and \<open>datetime.isoformat\<close>.
\<close>

record env =
  env_clock :: "nat \<Rightarrow> int"
  env_random :: "nat \<Rightarrow> nat"
  env_object_id :: "nat \<Rightarrow> string"
  env_isoformat :: "char \<Rightarrow> int \<Rightarrow> string"

text \<open>
  The state: \<open>db[name]\<close> is the collection \<open>name\<close>, its documents in insertion order (the
  order in which an unsorted \<open>find\<close> returns them), and how many clock readings, draws
  and \<open>ObjectId\<close>s were consumed so far. \<open>db\<close> is the handle of the repository's database
  module.
\<close>

record world =
  db :: "string \<Rightarrow> document list"
  clock_reads :: nat
  random_draws :: nat
  object_ids :: nat

definition now :: "env \<Rightarrow> world \<Rightarrow> int \<times> world" where
  "now e w = (env_clock e (clock_reads w), w\<lparr>clock_reads := Suc (clock_reads w)\<rparr>)"

definition randint :: "env \<Rightarrow> int \<Rightarrow> int \<Rightarrow> world \<Rightarrow> int \<times> world" where
  "randint e a b w =
     (a + int (env_random e (random_draws w) mod nat (b - a + 1)),
      w\<lparr>random_draws := Suc (random_draws w)\<rparr>)"

text \<open>\<open>random.choice(seq)\<close>; every sequence this program chooses from is a non-empty literal.\<close>

definition choice :: "env \<Rightarrow> 'a list \<Rightarrow> world \<Rightarrow> 'a \<times> world" where
  "choice e seq w =
     (seq ! (env_random e (random_draws w) mod length seq),
      w\<lparr>random_draws := Suc (random_draws w)\<rparr>)"

definition minutes :: "int \<Rightarrow> int" where
  "minutes m = m * 60000000"

definition days :: "int \<Rightarrow> int" where
  "days d = d * 86400000000"

text \<open>
  A datetime is a number of microseconds; the store keeps milliseconds. Every value that
  goes to the store, in a document, in an update or in a filter, is encoded first, and the
  encoding of a datetime drops what is below the millisecond.
\<close>

definition millis :: "int \<Rightarrow> int" where
  "millis t = t - t mod 1000"

fun bson :: "pyval \<Rightarrow> pyval" where
  "bson (VDate t) = VDate (millis t)"
| "bson v = v"

definition encode :: "dict \<Rightarrow> dict" where
  "encode d = map (\<lambda>(k, v). (k, bson v)) d"

text \<open>
  A query filter is a conjunction of conditions: \<open>{k: v}\<close> (a missing field equals
  \<open>None\<close> only) and \<open>{k: {"$lte": t}}\<close> for a datetime \<open>t\<close>, which only a datetime at or
  before the encoded \<open>t\<close> satisfies.
\<close>

datatype cond = Eq string pyval | LteDate string int

fun holds :: "dict \<Rightarrow> cond \<Rightarrow> bool" where
  "holds d (Eq k v) = (case map_of d k of None \<Rightarrow> bson v = VNone | Some x \<Rightarrow> x = bson v)"
| "holds d (LteDate k t) =
     (case map_of d k of Some (VDate x) \<Rightarrow> x \<le> millis t | _ \<Rightarrow> False)"

definition matches :: "cond list \<Rightarrow> document \<Rightarrow> bool" where
  "matches q doc = list_all (holds (doc_dict doc)) q"

definition find :: "world \<Rightarrow> string \<Rightarrow> cond list \<Rightarrow> document list" where
  "find w coll q = filter (matches q) (db w coll)"

text \<open>\<open>cursor.limit(n)\<close>: a limit of 0 is no limit.\<close>

definition limit :: "nat \<Rightarrow> document list \<Rightarrow> document list" where
  "limit n docs = (if n = 0 then docs else take n docs)"

definition find_one :: "world \<Rightarrow> string \<Rightarrow> cond list \<Rightarrow> dict option" where
  "find_one w coll q = (case find w coll q of [] \<Rightarrow> None | doc # _ \<Rightarrow> Some (doc_dict doc))"

text \<open>\<open>insert_one(document)\<close>, with the \<open>inserted_id\<close> of its result.\<close>

definition insert_one :: "env \<Rightarrow> string \<Rightarrow> dict \<Rightarrow> world \<Rightarrow> string \<times> world" where
  "insert_one e coll document w =
     (env_object_id e (object_ids w),
      w\<lparr>db := (db w)(coll := db w coll @ [(env_object_id e (object_ids w), encode document)]),
        object_ids := Suc (object_ids w)\<rparr>)"

text \<open>\<open>$set\<close>: each field is overwritten in place, or added when the document lacks it.\<close>

definition apply_set :: "dict \<Rightarrow> dict \<Rightarrow> dict" where
  "apply_set sets d = fold (\<lambda>(k, v). AList.update k v) sets d"

fun update_first :: "(document \<Rightarrow> bool) \<Rightarrow> (dict \<Rightarrow> dict) \<Rightarrow> document list \<Rightarrow> document list" where
  "update_first P f [] = []"
| "update_first P f (doc # docs) =
     (if P doc then (fst doc, f (snd doc)) # docs else doc # update_first P f docs)"

fun eq_fields :: "cond list \<Rightarrow> dict" where
  "eq_fields [] = []"
| "eq_fields (Eq k v # q) = (k, v) # eq_fields q"
| "eq_fields (LteDate k t # q) = eq_fields q"

text \<open>
  \<open>update_one(filter, {"$set": sets, "$setOnInsert": on_insert}, upsert=upsert)\<close>: the first
  document that matches gets \<open>sets\<close>; when none matches and \<open>upsert\<close> is set, a new document
  is inserted, made of the filter's equalities, \<open>sets\<close> and \<open>on_insert\<close>.
\<close>

definition update_one ::
  "env \<Rightarrow> string \<Rightarrow> cond list \<Rightarrow> dict \<Rightarrow> dict \<Rightarrow> bool \<Rightarrow> world \<Rightarrow> world" where
  "update_one e coll q sets on_insert upsert w =
     (if list_ex (matches q) (db w coll)
      then w\<lparr>db := (db w)(coll := update_first (matches q) (apply_set (encode sets)) (db w coll))\<rparr>
      else if upsert
      then snd (insert_one e coll (apply_set on_insert (apply_set sets (eq_fields q))) w)
      else w)"

section \<open>The routes\<close>

datatype error = HTTPException nat string | AttributeError

datatype CampaignCreate = CampaignCreate string "string option"

datatype TemplateSet = TemplateSet string string string

datatype ProspectSearchRequest = ProspectSearchRequest string

datatype AutomationStart = AutomationStart string

definition optional :: "string option \<Rightarrow> pyval" where
  "optional x = (case x of None \<Rightarrow> VNone | Some s \<Rightarrow> VStr s)"

text \<open>
  \<^verbatim>\<open>
  def create_campaign(payload: CampaignCreate):
      doc = {"name": payload.name, "description": payload.description,
             "created_at": datetime.now(timezone.utc), "updated_at": datetime.now(timezone.utc)}
      new_id = db["campaign"].insert_one(doc).inserted_id
      return {"id": str(new_id), "name": payload.name, "description": payload.description}
  \<close>
\<close>

fun create_campaign :: "env \<Rightarrow> CampaignCreate \<Rightarrow> world \<Rightarrow> dict \<times> world" where
  "create_campaign e (CampaignCreate name description) w =
     (let (created_at, w) = now e w;
          (updated_at, w) = now e w;
          doc = [(''name'', VStr name), (''description'', optional description),
                 (''created_at'', VDate created_at), (''updated_at'', VDate updated_at)];
          (new_id, w) = insert_one e ''campaign'' doc w
      in ([(''id'', VStr (py_str (env_isoformat e) (VOid new_id))), (''name'', VStr name),
           (''description'', optional description)], w))"

subsection \<open>Companies upload\<close>

text \<open>
  A row of \<open>csv.DictReader\<close>: the cells of one line under the header's names (a column the
  line lacks reads as \<open>None\<close>, like a missing key). The parsed rows are the input here.
\<close>

type_synonym csv_row = "(string \<times> string) list"

text \<open>\<open>a or b\<close> on text that may be \<open>None\<close>.\<close>

definition or_else :: "string option \<Rightarrow> string option \<Rightarrow> string option" where
  "or_else a b = (case a of None \<Rightarrow> b | Some s \<Rightarrow> if s \<noteq> [] then a else b)"

definition or_text :: "string option \<Rightarrow> string \<Rightarrow> string" where
  "or_text a b = (case a of None \<Rightarrow> b | Some s \<Rightarrow> if s \<noteq> [] then s else b)"

text \<open>
  \<open>str.strip()\<close> removes the characters that \<open>str.isspace\<close> accepts, at both ends.
  Text is made of the characters up to U+00FF here; those that are whitespace are the
  controls U+0009 to U+000D and U+001C to U+001F, the space, U+0085 and U+00A0.
\<close>

definition isspace :: "char \<Rightarrow> bool" where
  "isspace c = (c \<in> set [CHR 0x09, CHR 0x0A, CHR 0x0B, CHR 0x0C, CHR 0x0D,
                          CHR 0x1C, CHR 0x1D, CHR 0x1E, CHR 0x1F, CHR 0x20,
                          CHR 0x85, CHR 0xA0])"

definition strip :: "string \<Rightarrow> string" where
  "strip s = rev (dropWhile isspace (rev (dropWhile isspace s)))"

text \<open>
  \<^verbatim>\<open>
      count = 0
      for row in reader:
          company_name = row.get("Company Name") or row.get("company_name")
          linkedin_url = row.get("Company LinkedIn URL") or row.get("linkedin_url")
          if not company_name:
              continue
          db["company"].insert_one({
              "campaign_id": campaign_id,
              "company_name": company_name.strip(),
              "linkedin_url": (linkedin_url or "").strip(),
              "created_at": datetime.now(timezone.utc),
              "updated_at": datetime.now(timezone.utc),
          })
          count += 1
      return {"inserted": count}
  \<close>
\<close>

fun upload_rows :: "env \<Rightarrow> string \<Rightarrow> csv_row list \<Rightarrow> nat \<Rightarrow> world \<Rightarrow> nat \<times> world" where
  "upload_rows e campaign_id [] count w = (count, w)"
| "upload_rows e campaign_id (row # reader) count w =
     (let company_name = or_else (map_of row ''Company Name'') (map_of row ''company_name'');
          linkedin_url = or_else (map_of row ''Company LinkedIn URL'') (map_of row ''linkedin_url'')
      in case company_name of
           None \<Rightarrow> upload_rows e campaign_id reader count w
         | Some company_name \<Rightarrow>
             if company_name = [] then upload_rows e campaign_id reader count w
             else
               (let (created_at, w) = now e w;
                    (updated_at, w) = now e w;
                    (_, w) = insert_one e ''company''
                       [(''campaign_id'', VStr campaign_id),
                        (''company_name'', VStr (strip company_name)),
                        (''linkedin_url'', VStr (strip (or_text linkedin_url []))),
                        (''created_at'', VDate created_at),
                        (''updated_at'', VDate updated_at)] w
                in upload_rows e campaign_id reader (count + 1) w))"

text \<open>
  \<^verbatim>\<open>
  async def upload_companies(campaign_id: str, file: UploadFile = File(...)):
      if file.content_type not in ("text/csv", "application/vnd.ms-excel", "application/csv"):
          raise HTTPException(status_code=400, detail="Please upload a CSV file")
      content = await file.read()
      text = content.decode("utf-8", errors="ignore")
      reader = csv.DictReader(io.StringIO(text))
  \<close>
  The result is the \<open>inserted\<close> count of the response.
\<close>

definition upload_companies ::
  "env \<Rightarrow> string \<Rightarrow> string option \<Rightarrow> csv_row list \<Rightarrow> world \<Rightarrow> (error + nat) \<times> world" where
  "upload_companies e campaign_id content_type reader w =
     (if content_type \<notin> set [Some ''text/csv'', Some ''application/vnd.ms-excel'',
                               Some ''application/csv'']
      then (Inl (HTTPException 400 ''Please upload a CSV file''), w)
      else (let (count, w) = upload_rows e campaign_id reader 0 w in (Inr count, w)))"

subsection \<open>Templates\<close>

text \<open>
  \<^verbatim>\<open>
  def upsert_templates(payload: TemplateSet):
      db["template"].update_one(
          {"campaign_id": payload.campaign_id},
          {"$set": {
              "connection_template": payload.connection_template,
              "followup_template": payload.followup_template,
              "updated_at": datetime.now(timezone.utc)
          }, "$setOnInsert": {"created_at": datetime.now(timezone.utc)}},
          upsert=True
      )
      doc = db["template"].find_one({"campaign_id": payload.campaign_id})
      return serialize(doc)
  \<close>
\<close>

fun upsert_templates :: "env \<Rightarrow> TemplateSet \<Rightarrow> world \<Rightarrow> dict option \<times> world" where
  "upsert_templates e (TemplateSet campaign_id connection_template followup_template) w =
     (let (updated_at, w) = now e w;
          (created_at, w) = now e w;
          w = update_one e ''template'' [Eq ''campaign_id'' (VStr campaign_id)]
                [(''connection_template'', VStr connection_template),
                 (''followup_template'', VStr followup_template),
                 (''updated_at'', VDate updated_at)]
                [(''created_at'', VDate created_at)] True w;
          doc = find_one w ''template'' [Eq ''campaign_id'' (VStr campaign_id)]
      in (serialize (env_isoformat e) doc, w))"

subsection \<open>Prospect search\<close>

text \<open>
  \<^verbatim>\<open>
          for i in range(2):  # create two prospects per company for demo
              first = random.choice(["Alex", "Jordan", "Taylor", "Casey", "Riley", "Drew", "Chris"]) \
                  + random.choice(["", "-Lee", "-Ray"])[:0]
              last = random.choice(["Smith", "Johnson", "Lee", "Brown", "Davis", "Miller"]) \
                  + random.choice(["", "-Jr"])[:0]
              db["prospect"].insert_one({
                  "campaign_id": campaign_id,
                  "company_name": c.get("company_name"),
                  "first_name": first,
                  "last_name": last,
                  "job_title": payload.job_title_query,
                  "profile_url": None,
                  "personalized_line": None,
                  "status": "pending",
                  "created_at": datetime.now(timezone.utc),
                  "updated_at": datetime.now(timezone.utc),
                  "last_action_at": None,
              })
              created += 1
  \<close>
\<close>

definition create_prospect :: "env \<Rightarrow> string \<Rightarrow> string \<Rightarrow> dict \<Rightarrow> nat \<times> world \<Rightarrow> nat \<times> world" where
  "create_prospect e campaign_id job_title_query c state =
     (let (created, w) = state;
          (first_pick, w) =
             choice e [''Alex'', ''Jordan'', ''Taylor'', ''Casey'', ''Riley'', ''Drew'', ''Chris''] w;
          (first_suffix, w) = choice e ['''', ''-Lee'', ''-Ray''] w;
          first = first_pick @ take 0 first_suffix;
          (last_pick, w) =
             choice e [''Smith'', ''Johnson'', ''Lee'', ''Brown'', ''Davis'', ''Miller''] w;
          (last_suffix, w) = choice e ['''', ''-Jr''] w;
          last = last_pick @ take 0 last_suffix;
          (created_at, w) = now e w;
          (updated_at, w) = now e w;
          (_, w) = insert_one e ''prospect''
             [(''campaign_id'', VStr campaign_id),
              (''company_name'', dict_get c ''company_name'' VNone),
              (''first_name'', VStr first),
              (''last_name'', VStr last),
              (''job_title'', VStr job_title_query),
              (''profile_url'', VNone),
              (''personalized_line'', VNone),
              (''status'', VStr ''pending''),
              (''created_at'', VDate created_at),
              (''updated_at'', VDate updated_at),
              (''last_action_at'', VNone)] w
      in (created + 1, w))"

text \<open>
  \<^verbatim>\<open>
  def search_and_create_prospects(campaign_id: str, payload: ProspectSearchRequest):
      companies = list(db["company"].find({"campaign_id": campaign_id}))
      if not companies:
          raise HTTPException(status_code=400, detail="No companies found for this campaign")
      created = 0
      for c in companies:
          for i in range(2):
              ...
      return {"created": created}
  \<close>
  \<open>create_prospects\<close> is the pair of nested loops; the result is the \<open>created\<close> count of
  the response.
\<close>

definition create_prospects ::
  "env \<Rightarrow> string \<Rightarrow> string \<Rightarrow> dict list \<Rightarrow> nat \<times> world \<Rightarrow> nat \<times> world" where
  "create_prospects e campaign_id job_title_query companies state =
     fold (\<lambda>c state. fold (\<lambda>i. create_prospect e campaign_id job_title_query c) [0..<2] state)
       companies state"

fun search_and_create_prospects ::
  "env \<Rightarrow> string \<Rightarrow> ProspectSearchRequest \<Rightarrow> world \<Rightarrow> (error + nat) \<times> world" where
  "search_and_create_prospects e campaign_id (ProspectSearchRequest job_title_query) w =
     (let companies = map doc_dict (find w ''company'' [Eq ''campaign_id'' (VStr campaign_id)])
      in if companies = []
         then (Inl (HTTPException 400 ''No companies found for this campaign''), w)
         else (let (created, w) = create_prospects e campaign_id job_title_query companies (0, w)
               in (Inr created, w)))"

subsection \<open>Automation engine\<close>

text \<open>
  \<open>render_template(tmpl, p)\<close> where \<open>tmpl\<close> was read from a document: \<open>tmpl.replace\<close>
  exists for text only, any other value raises \<open>AttributeError\<close>.
\<close>

definition render_call :: "env \<Rightarrow> pyval \<Rightarrow> dict \<Rightarrow> error + string" where
  "render_call e tmpl p =
     (case tmpl of
        VStr template \<Rightarrow> Inr (render_template (env_isoformat e) template p)
      | _ \<Rightarrow> Inl AttributeError)"

text \<open>
  The body of the first loop, for one prospect \<open>p\<close> of the cursor. An exception leaves the
  state as it is at that point.
  \<^verbatim>\<open>
          scheduled_at = datetime.now(timezone.utc) + timedelta(minutes=random.randint(2, 30))
          content = render_template(connection_tmpl, p)
          db["messagelog"].insert_one({
              "campaign_id": campaign_id,
              "prospect_id": str(p["_id"]),
              "type": "connection",
              "status": "sent",
              "scheduled_at": scheduled_at,
              "sent_at": datetime.now(timezone.utc),
              "content": content,
          })
          db["prospect"].update_one({"_id": p["_id"]}, {"$set": {"status": "requested",
              "last_action_at": datetime.now(timezone.utc),
              "updated_at": datetime.now(timezone.utc)}})
  \<close>
\<close>

definition connection_step ::
  "env \<Rightarrow> string \<Rightarrow> pyval \<Rightarrow> document \<Rightarrow> world \<Rightarrow> error option \<times> world" where
  "connection_step e campaign_id connection_tmpl p w =
     (let (t, w) = now e w;
          (m, w) = randint e 2 30 w;
          scheduled_at = t + minutes m
      in case render_call e connection_tmpl (doc_dict p) of
           Inl err \<Rightarrow> (Some err, w)
         | Inr content \<Rightarrow>
             (let (sent_at, w) = now e w;
                  (_, w) = insert_one e ''messagelog''
                     [(''campaign_id'', VStr campaign_id),
                      (''prospect_id'', VStr (py_str (env_isoformat e) (VOid (fst p)))),
                      (''type'', VStr ''connection''),
                      (''status'', VStr ''sent''),
                      (''scheduled_at'', VDate scheduled_at),
                      (''sent_at'', VDate sent_at),
                      (''content'', VStr content)] w;
                  (last_action_at, w) = now e w;
                  (updated_at, w) = now e w;
                  w = update_one e ''prospect'' [Eq ''_id'' (VOid (fst p))]
                        [(''status'', VStr ''requested''),
                         (''last_action_at'', VDate last_action_at),
                         (''updated_at'', VDate updated_at)] [] False w
              in (None, w)))"

text \<open>
  \<^verbatim>\<open>
      for p in cursor:
          if processed >= daily_limit:
              break
          ...
          processed += 1
  \<close>
\<close>

fun connection_loop ::
  "env \<Rightarrow> string \<Rightarrow> pyval \<Rightarrow> int \<Rightarrow> document list \<Rightarrow> int \<Rightarrow> world \<Rightarrow> error option \<times> world" where
  "connection_loop e campaign_id connection_tmpl daily_limit [] processed w = (None, w)"
| "connection_loop e campaign_id connection_tmpl daily_limit (p # cursor) processed w =
     (if processed \<ge> daily_limit then (None, w)
      else case connection_step e campaign_id connection_tmpl p w of
             (Some err, w) \<Rightarrow> (Some err, w)
           | (None, w) \<Rightarrow>
               connection_loop e campaign_id connection_tmpl daily_limit cursor (processed + 1) w)"

text \<open>
  \<^verbatim>\<open>
      # 1) Send connection requests to pending prospects
      cursor = db["prospect"].find({"campaign_id": campaign_id, "status": "pending"}).limit(daily_limit)
  \<close>
  The cursor is read when the loop starts: a limit of at most 20 fits the first batch.
\<close>

definition pending_cursor :: "string \<Rightarrow> int \<Rightarrow> world \<Rightarrow> document list" where
  "pending_cursor campaign_id daily_limit w =
     limit (nat daily_limit)
       (find w ''prospect'' [Eq ''campaign_id'' (VStr campaign_id), Eq ''status'' (VStr ''pending'')])"

definition connection_phase ::
  "env \<Rightarrow> string \<Rightarrow> pyval \<Rightarrow> int \<Rightarrow> world \<Rightarrow> error option \<times> world" where
  "connection_phase e campaign_id connection_tmpl daily_limit w =
     connection_loop e campaign_id connection_tmpl daily_limit
       (pending_cursor campaign_id daily_limit w) 0 w"

text \<open>
  The body of the second loop.
  \<^verbatim>\<open>
          scheduled_at = datetime.now(timezone.utc) + timedelta(minutes=random.randint(5, 45))
          content = render_template(followup_tmpl, p)
          db["messagelog"].insert_one({... "type": "followup", "status": "sent", ...})
          db["prospect"].update_one({"_id": p["_id"]}, {"$set": {"status": "followed_up",
              "last_action_at": datetime.now(timezone.utc),
              "updated_at": datetime.now(timezone.utc)}})
  \<close>
\<close>

definition followup_step ::
  "env \<Rightarrow> string \<Rightarrow> pyval \<Rightarrow> document \<Rightarrow> world \<Rightarrow> error option \<times> world" where
  "followup_step e campaign_id followup_tmpl p w =
     (let (t, w) = now e w;
          (m, w) = randint e 5 45 w;
          scheduled_at = t + minutes m
      in case render_call e followup_tmpl (doc_dict p) of
           Inl err \<Rightarrow> (Some err, w)
         | Inr content \<Rightarrow>
             (let (sent_at, w) = now e w;
                  (_, w) = insert_one e ''messagelog''
                     [(''campaign_id'', VStr campaign_id),
                      (''prospect_id'', VStr (py_str (env_isoformat e) (VOid (fst p)))),
                      (''type'', VStr ''followup''),
                      (''status'', VStr ''sent''),
                      (''scheduled_at'', VDate scheduled_at),
                      (''sent_at'', VDate sent_at),
                      (''content'', VStr content)] w;
                  (last_action_at, w) = now e w;
                  (updated_at, w) = now e w;
                  w = update_one e ''prospect'' [Eq ''_id'' (VOid (fst p))]
                        [(''status'', VStr ''followed_up''),
                         (''last_action_at'', VDate last_action_at),
                         (''updated_at'', VDate updated_at)] [] False w
              in (None, w)))"

fun followup_loop ::
  "env \<Rightarrow> string \<Rightarrow> pyval \<Rightarrow> document list \<Rightarrow> world \<Rightarrow> error option \<times> world" where
  "followup_loop e campaign_id followup_tmpl [] w = (None, w)"
| "followup_loop e campaign_id followup_tmpl (p # cursor) w =
     (case followup_step e campaign_id followup_tmpl p w of
        (Some err, w) \<Rightarrow> (Some err, w)
      | (None, w) \<Rightarrow> followup_loop e campaign_id followup_tmpl cursor w)"

text \<open>
  \<^verbatim>\<open>
      # 2) Send follow-ups if 3+ days since request and not accepted
      three_days_ago = datetime.now(timezone.utc) - timedelta(days=3)
      cursor = db["prospect"].find({
          "campaign_id": campaign_id,
          "status": "requested",
          "last_action_at": {"$lte": three_days_ago}
      }).limit(daily_limit)
  \<close>
\<close>

definition followup_cursor :: "string \<Rightarrow> int \<Rightarrow> int \<Rightarrow> world \<Rightarrow> document list" where
  "followup_cursor campaign_id daily_limit three_days_ago w =
     limit (nat daily_limit)
       (find w ''prospect'' [Eq ''campaign_id'' (VStr campaign_id), Eq ''status'' (VStr ''requested''),
                             LteDate ''last_action_at'' three_days_ago])"

definition followup_phase ::
  "env \<Rightarrow> string \<Rightarrow> pyval \<Rightarrow> int \<Rightarrow> world \<Rightarrow> error option \<times> world" where
  "followup_phase e campaign_id followup_tmpl daily_limit w =
     (let (t, w) = now e w;
          three_days_ago = t - days 3
      in followup_loop e campaign_id followup_tmpl
           (followup_cursor campaign_id daily_limit three_days_ago w) w)"

text \<open>
  \<^verbatim>\<open>
  def process_automation(campaign_id: str):
      template = db["template"].find_one({"campaign_id": campaign_id})
      connection_tmpl = (template or {}).get("connection_template", "Hi {{First Name}}, would love to connect.")
      followup_tmpl = (template or {}).get("followup_template", "Following up on my request, {{First Name}}.")
      daily_limit = random.randint(10, 20)
      processed = 0
      ...
  \<close>
\<close>

definition templates_of :: "world \<Rightarrow> string \<Rightarrow> pyval \<times> pyval" where
  "templates_of w campaign_id =
     (let template = find_one w ''template'' [Eq ''campaign_id'' (VStr campaign_id)];
          template_or_empty = (case template of None \<Rightarrow> [] | Some d \<Rightarrow> d)
      in (dict_get template_or_empty ''connection_template''
            (VStr ''Hi {{First Name}}, would love to connect.''),
          dict_get template_or_empty ''followup_template''
            (VStr ''Following up on my request, {{First Name}}.'')))"

definition process_automation :: "env \<Rightarrow> string \<Rightarrow> world \<Rightarrow> error option \<times> world" where
  "process_automation e campaign_id w =
     (let (connection_tmpl, followup_tmpl) = templates_of w campaign_id;
          (daily_limit, w) = randint e 10 20 w
      in case connection_phase e campaign_id connection_tmpl daily_limit w of
           (Some err, w) \<Rightarrow> (Some err, w)
         | (None, w) \<Rightarrow> followup_phase e campaign_id followup_tmpl daily_limit w)"

text \<open>
  \<open>start_automation\<close> hands \<open>process_automation\<close> to the background tasks and answers
  \<open>{"scheduled": True}\<close>; the task runs after the response, and what it raises reaches no
  client.
\<close>

fun start_automation :: "env \<Rightarrow> AutomationStart \<Rightarrow> world \<Rightarrow> bool \<times> world" where
  "start_automation e (AutomationStart campaign_id) w =
     (True, snd (process_automation e campaign_id w))"

section \<open>Templates as text and placeholders\<close>

text \<open>
  A template read as a sequence of pieces: plain text without an opening brace, and
  placeholders \<open>{{name}}\<close> whose name has no brace. \<open>render_piece\<close> is the rendering that
  the specification words: each of the four known placeholders becomes the text of its
  field, every other piece stays as it is.
\<close>

datatype piece = Text string | Placeholder string

fun piece_text :: "piece \<Rightarrow> string" where
  "piece_text (Text s) = s"
| "piece_text (Placeholder n) = placeholder n"

definition template_of :: "piece list \<Rightarrow> string" where
  "template_of ps = concat (map piece_text ps)"

fun plain_piece :: "piece \<Rightarrow> bool" where
  "plain_piece (Text s) = (CHR ''{'' \<notin> set s)"
| "plain_piece (Placeholder n) = (CHR ''{'' \<notin> set n \<and> CHR ''}'' \<notin> set n)"

text \<open>\<open>str(data.get(f, "") or "")\<close>: the text that a field contributes.\<close>

definition field_text :: "(char \<Rightarrow> int \<Rightarrow> string) \<Rightarrow> dict \<Rightarrow> string \<Rightarrow> string" where
  "field_text isoformat data f = py_str isoformat (py_or (dict_get data f (VStr '''')) (VStr ''''))"

fun known_field :: "string \<Rightarrow> string option" where
  "known_field n =
     (if n = ''First Name'' then Some ''first_name''
      else if n = ''Company Name'' then Some ''company_name''
      else if n = ''Job Title'' then Some ''job_title''
      else if n = ''Personalized Line'' then Some ''personalized_line''
      else None)"

fun render_piece :: "(char \<Rightarrow> int \<Rightarrow> string) \<Rightarrow> dict \<Rightarrow> piece \<Rightarrow> string" where
  "render_piece isoformat data (Text s) = s"
| "render_piece isoformat data (Placeholder n) =
     (case known_field n of None \<Rightarrow> placeholder n | Some f \<Rightarrow> field_text isoformat data f)"

fun subst_piece :: "string \<Rightarrow> string \<Rightarrow> piece \<Rightarrow> piece" where
  "subst_piece k v (Text s) = Text s"
| "subst_piece k v (Placeholder n) = (if n = k then Text v else Placeholder n)"

section \<open>Notions used by the statements\<close>

text \<open>What the datetime loop of \<open>serialize\<close> makes of one value.\<close>

fun isoformat_value :: "(char \<Rightarrow> int \<Rightarrow> string) \<Rightarrow> pyval \<Rightarrow> pyval" where
  "isoformat_value isoformat (VDate t) = VStr (isoformat (CHR ''T'') t)"
| "isoformat_value isoformat v = v"

text \<open>The company name and the profile URL that a CSV row gives, under either header.\<close>

definition company_name_of :: "csv_row \<Rightarrow> string option" where
  "company_name_of row = or_else (map_of row ''Company Name'') (map_of row ''company_name'')"

definition linkedin_url_of :: "csv_row \<Rightarrow> string option" where
  "linkedin_url_of row =
     or_else (map_of row ''Company LinkedIn URL'') (map_of row ''linkedin_url'')"

definition has_company_name :: "csv_row \<Rightarrow> bool" where
  "has_company_name row = (case company_name_of row of None \<Rightarrow> False | Some s \<Rightarrow> s \<noteq> [])"

definition accepted_csv :: "string option \<Rightarrow> bool" where
  "accepted_csv content_type =
     (content_type = Some ''text/csv'' \<or> content_type = Some ''application/vnd.ms-excel''
      \<or> content_type = Some ''application/csv'')"

text \<open>The Company document of a row, with its two timestamps.\<close>

definition company_doc :: "string \<Rightarrow> csv_row \<Rightarrow> int \<Rightarrow> int \<Rightarrow> dict" where
  "company_doc campaign_id row created_at updated_at =
     [(''campaign_id'', VStr campaign_id),
      (''company_name'', VStr (strip (or_text (company_name_of row) []))),
      (''linkedin_url'', VStr (strip (or_text (linkedin_url_of row) []))),
      (''created_at'', VDate created_at),
      (''updated_at'', VDate updated_at)]"

text \<open>The name pools of the prospect search, and the Prospect document it inserts.\<close>

definition first_names :: "string list" where
  "first_names = [''Alex'', ''Jordan'', ''Taylor'', ''Casey'', ''Riley'', ''Drew'', ''Chris'']"

definition last_names :: "string list" where
  "last_names = [''Smith'', ''Johnson'', ''Lee'', ''Brown'', ''Davis'', ''Miller'']"

definition prospect_doc ::
  "string \<Rightarrow> pyval \<Rightarrow> string \<Rightarrow> string \<Rightarrow> string \<Rightarrow> int \<Rightarrow> int \<Rightarrow> dict" where
  "prospect_doc campaign_id company_name first_name last_name job_title created_at updated_at =
     [(''campaign_id'', VStr campaign_id),
      (''company_name'', company_name),
      (''first_name'', VStr first_name),
      (''last_name'', VStr last_name),
      (''job_title'', VStr job_title),
      (''profile_url'', VNone),
      (''personalized_line'', VNone),
      (''status'', VStr ''pending''),
      (''created_at'', VDate created_at),
      (''updated_at'', VDate updated_at),
      (''last_action_at'', VNone)]"

text \<open>
  The \<open>i\<close>-th prospect that a search creates from the companies \<open>cs\<close>, in a state that has
  consumed \<open>rd\<close> draws, \<open>cr\<close> clock readings and \<open>oid\<close> identifiers: company \<open>i div 2\<close>, the
  first and third of its four draws, its two clock readings (as the store keeps them).
\<close>

definition created_prospect ::
  "env \<Rightarrow> string \<Rightarrow> string \<Rightarrow> dict list \<Rightarrow> nat \<Rightarrow> nat \<Rightarrow> nat \<Rightarrow> nat \<Rightarrow> document" where
  "created_prospect e campaign_id job_title cs rd cr oid i =
     (env_object_id e (oid + i),
      prospect_doc campaign_id (bson (dict_get (cs ! (i div 2)) ''company_name'' VNone))
        (first_names ! (env_random e (rd + 4 * i) mod length first_names))
        (last_names ! (env_random e (rd + 4 * i + 2) mod length last_names))
        job_title
        (millis (env_clock e (cr + 2 * i))) (millis (env_clock e (cr + 2 * i + 1))))"

text \<open>The MessageLog document of one simulated send, and the \<open>$set\<close> that advances a prospect.\<close>

definition message_doc :: "string \<Rightarrow> string \<Rightarrow> string \<Rightarrow> int \<Rightarrow> int \<Rightarrow> string \<Rightarrow> dict" where
  "message_doc campaign_id prospect_id type scheduled_at sent_at content =
     [(''campaign_id'', VStr campaign_id),
      (''prospect_id'', VStr prospect_id),
      (''type'', VStr type),
      (''status'', VStr ''sent''),
      (''scheduled_at'', VDate scheduled_at),
      (''sent_at'', VDate sent_at),
      (''content'', VStr content)]"

definition advanced :: "string \<Rightarrow> int \<Rightarrow> int \<Rightarrow> dict \<Rightarrow> dict" where
  "advanced status last_action_at updated_at d =
     apply_set [(''status'', VStr status), (''last_action_at'', VDate last_action_at),
                (''updated_at'', VDate updated_at)] d"

text \<open>
  The \<open>i\<close>-th message that a loop over the cursor \<open>ps\<close> writes with the text template \<open>s\<close>,
  from a state that has consumed \<open>rd\<close> draws, \<open>cr\<close> clock readings and \<open>oid\<close> identifiers:
  each prospect takes one draw (the offset in minutes, between \<open>lo\<close> and \<open>hi\<close>), four clock
  readings (scheduling, sending, last action, update) and one identifier. The datetimes are
  as the store keeps them.
\<close>

definition offset_minutes :: "env \<Rightarrow> int \<Rightarrow> int \<Rightarrow> nat \<Rightarrow> int" where
  "offset_minutes e lo hi draw = lo + int (env_random e draw mod nat (hi - lo + 1))"

definition sent_message ::
  "env \<Rightarrow> string \<Rightarrow> string \<Rightarrow> int \<Rightarrow> int \<Rightarrow> string \<Rightarrow> document list \<Rightarrow> nat \<Rightarrow> nat \<Rightarrow> nat \<Rightarrow> nat
   \<Rightarrow> document" where
  "sent_message e campaign_id type lo hi s ps rd cr oid i =
     (env_object_id e (oid + i),
      message_doc campaign_id (fst (ps ! i)) type
        (millis (env_clock e (cr + 4 * i) + minutes (offset_minutes e lo hi (rd + i))))
        (millis (env_clock e (cr + 4 * i + 1)))
        (render_template (env_isoformat e) s (doc_dict (ps ! i))))"

text \<open>
  The prospect collection after the prospects of the cursor \<open>ps\<close> were advanced to \<open>status\<close>
  one after the other, each by an \<open>update_one\<close> on its \<open>_id\<close>, the first of them with the
  clock readings \<open>cr + 2\<close> and \<open>cr + 3\<close>.
\<close>

fun advance_all :: "env \<Rightarrow> string \<Rightarrow> nat \<Rightarrow> document list \<Rightarrow> document list \<Rightarrow> document list" where
  "advance_all e status cr [] docs = docs"
| "advance_all e status cr (p # ps) docs =
     advance_all e status (cr + 4) ps
       (update_first (\<lambda>d. fst d = fst p)
          (advanced status (millis (env_clock e (cr + 2))) (millis (env_clock e (cr + 3)))) docs)"

text \<open>The filters of the two cursors, as predicates on a stored document.\<close>

definition pending_for :: "string \<Rightarrow> document \<Rightarrow> bool" where
  "pending_for campaign_id p =
     (map_of (snd p) ''campaign_id'' = Some (VStr campaign_id)
      \<and> map_of (snd p) ''status'' = Some (VStr ''pending''))"

definition due_for_followup :: "string \<Rightarrow> int \<Rightarrow> document \<Rightarrow> bool" where
  "due_for_followup campaign_id current_time p =
     (map_of (snd p) ''campaign_id'' = Some (VStr campaign_id)
      \<and> map_of (snd p) ''status'' = Some (VStr ''requested'')
      \<and> (case map_of (snd p) ''last_action_at'' of
            Some (VDate t) \<Rightarrow> t \<le> millis (current_time - days 3)
          | _ \<Rightarrow> False))"

section \<open>A sample state\<close>

text \<open>
  A campaign \<open>c1\<close> with its two templates, one pending prospect and one prospect requested
  long ago; a clock that starts at day 4 and advances by one microsecond per reading, a
  random source that always draws 0.
\<close>

definition sample_env :: env where
  "sample_env =
     \<lparr>env_clock = (\<lambda>i. days 4 + int i), env_random = (\<lambda>i. 0),
      env_object_id = (\<lambda>i. replicate (Suc i) CHR ''a''), env_isoformat = (\<lambda>sep t. [])\<rparr>"

definition sample_world :: world where
  "sample_world =
     \<lparr>db = (\<lambda>c. if c = ''prospect''
                then [(''p1'', [(''campaign_id'', VStr ''c1''), (''first_name'', VStr ''Alex''),
                                (''status'', VStr ''pending'')]),
                      (''p2'', [(''campaign_id'', VStr ''c1''), (''first_name'', VStr ''Drew''),
                                (''status'', VStr ''requested''), (''last_action_at'', VDate 0)])]
                else if c = ''template''
                then [(''t1'', [(''campaign_id'', VStr ''c1''),
                                (''connection_template'', VStr ''Hi''),
                                (''followup_template'', VStr ''Ping'')])]
                else []),
      clock_reads = 0, random_draws = 0, object_ids = 0\<rparr>"

section \<open>The service as a whole\<close>

text \<open>
  The routes that write to the store, with their parameters; the other routes (health,
  the listings, the statistics, reading the templates) only read it. A request is handled
  in the state that the previous one left; the engine's background task runs as part of
  \<open>start_automation\<close>.
\<close>

datatype request =
    CreateCampaign CampaignCreate
  | UploadCompanies string "string option" "csv_row list"
  | UpsertTemplates TemplateSet
  | SearchProspects string ProspectSearchRequest
  | StartAutomation AutomationStart

fun handle :: "env \<Rightarrow> request \<Rightarrow> world \<Rightarrow> world" where
  "handle e (CreateCampaign payload) w = snd (create_campaign e payload w)"
| "handle e (UploadCompanies campaign_id content_type reader) w =
     snd (upload_companies e campaign_id content_type reader w)"
| "handle e (UpsertTemplates payload) w = snd (upsert_templates e payload w)"
| "handle e (SearchProspects campaign_id payload) w =
     snd (search_and_create_prospects e campaign_id payload w)"
| "handle e (StartAutomation payload) w = snd (start_automation e payload w)"

text \<open>The status of a stored prospect, and the three statuses that the service writes.\<close>

definition status_of :: "document \<Rightarrow> pyval option" where
  "status_of p = map_of (snd p) ''status''"

definition written_status :: "document \<Rightarrow> bool" where
  "written_status p =
     (status_of p = Some (VStr ''pending'') \<or> status_of p = Some (VStr ''requested'')
      \<or> status_of p = Some (VStr ''followed_up''))"

text \<open>
  A stored prospect \<open>before\<close> and the same one \<open>after\<close> a run of the engine: it is untouched,
  or its status is now \<open>requested\<close> or \<open>followed_up\<close>.
\<close>

definition same_or_advanced :: "document \<Rightarrow> document \<Rightarrow> bool" where
  "same_or_advanced before after =
     (fst after = fst before
      \<and> (snd after = snd before \<or> status_of after = Some (VStr ''requested'')
         \<or> status_of after = Some (VStr ''followed_up'')))"

section \<open>Properties\<close>

subsection \<open>Template rendering\<close>

lemma render_template_passes:
  "render_template fmt template data =
     replace (replace (replace (replace template
       (placeholder ''First Name'') (field_text fmt data ''first_name''))
       (placeholder ''Company Name'') (field_text fmt data ''company_name''))
       (placeholder ''Job Title'') (field_text fmt data ''job_title''))
       (placeholder ''Personalized Line'') (field_text fmt data ''personalized_line'')"
  by (simp add: render_template_def field_text_def)

lemma replace_from_skip:
  "old = CHR ''{'' # old' \<Longrightarrow> CHR ''{'' \<notin> set s \<Longrightarrow>
   replace_from old new (s @ rest) = s @ replace_from old new rest"
  by (induction s) auto

lemma closing_prefix:
  "prefix (k @ ''}}'') (n @ ''}}'' @ rest) \<Longrightarrow> CHR ''}'' \<notin> set k \<Longrightarrow> CHR ''}'' \<notin> set n
   \<Longrightarrow> k = n"
proof (induction k arbitrary: n)
  case Nil
  then show ?case by (cases n) auto
next
  case (Cons a k)
  then show ?case by (cases n) auto
qed

lemma replace_from_placeholder_same:
  "replace_from (placeholder k) v (placeholder k @ rest) = v @ replace_from (placeholder k) v rest"
  by (simp add: placeholder_def)

lemma replace_from_placeholder_other:
  assumes "n \<noteq> k" "CHR ''{'' \<notin> set n" "CHR ''}'' \<notin> set n" "CHR ''}'' \<notin> set k"
  shows "replace_from (placeholder k) v (placeholder n @ rest) =
         placeholder n @ replace_from (placeholder k) v rest"
proof -
  have no: "\<not> prefix (k @ ''}}'') (n @ ''}}'' @ rest)"
    using closing_prefix assms by blast
  have hd_n: "\<not> prefix (CHR ''{'' # k @ ''}}'') (n @ ''}}'' @ rest)"
    using assms(2) by (cases n) auto
  have "CHR ''{'' \<notin> set (n @ ''}}'')"
    using assms(2) by simp
  then have skip: "replace_from (placeholder k) v ((n @ ''}}'') @ rest) =
              (n @ ''}}'') @ replace_from (placeholder k) v rest"
    by (intro replace_from_skip [where old' = "CHR ''{'' # k @ ''}}''"])
       (simp_all add: placeholder_def)
  have "replace_from (placeholder k) v (placeholder n @ rest) =
        CHR ''{'' # CHR ''{'' # replace_from (placeholder k) v ((n @ ''}}'') @ rest)"
    using no hd_n by (simp add: placeholder_def)
  with skip show ?thesis by (simp add: placeholder_def)
qed

lemma replace_from_piece:
  assumes "plain_piece p" "CHR ''}'' \<notin> set k"
  shows "replace_from (placeholder k) v (piece_text p @ rest) =
         piece_text (subst_piece k v p) @ replace_from (placeholder k) v rest"
proof (cases p)
  case (Text s)
  with assms show ?thesis
    by (simp add: replace_from_skip [where old' = "CHR ''{'' # k @ ''}}''"] placeholder_def)
next
  case (Placeholder n)
  with assms show ?thesis
    by (simp add: replace_from_placeholder_same replace_from_placeholder_other)
qed

lemma replace_template_of:
  assumes "list_all plain_piece ps" "CHR ''}'' \<notin> set k"
  shows "replace (template_of ps) (placeholder k) v = template_of (map (subst_piece k v) ps)"
proof -
  have "replace_from (placeholder k) v (template_of ps) = template_of (map (subst_piece k v) ps)"
    using assms(1)
  proof (induction ps)
    case Nil
    then show ?case by (simp add: template_of_def)
  next
    case (Cons p ps)
    then show ?case
      using replace_from_piece [OF _ assms(2), of p v "template_of ps"]
      by (simp add: template_of_def)
  qed
  then show ?thesis by (simp add: replace_def placeholder_def)
qed

lemma plain_subst:
  "list_all plain_piece ps \<Longrightarrow> CHR ''{'' \<notin> set v \<Longrightarrow>
   list_all plain_piece (map (subst_piece k v) ps)"
proof (induction ps)
  case Nil
  then show ?case by simp
next
  case (Cons p ps)
  then show ?case by (cases p) auto
qed

lemma render_pieces_pointwise:
  "piece_text (subst_piece ''Personalized Line'' (field_text fmt d ''personalized_line'')
     (subst_piece ''Job Title'' (field_text fmt d ''job_title'')
       (subst_piece ''Company Name'' (field_text fmt d ''company_name'')
         (subst_piece ''First Name'' (field_text fmt d ''first_name'') p)))) = render_piece fmt d p"
  by (cases p) auto

lemma field_text_cases:
  "field_text fmt d f =
     (case map_of d f of None \<Rightarrow> [] | Some VNone \<Rightarrow> [] | Some (VStr s) \<Rightarrow> s
      | Some (VDate t) \<Rightarrow> fmt (CHR '' '') t | Some (VOid h) \<Rightarrow> h)"
  by (simp add: field_text_def dict_get_def py_or_def split: option.splits pyval.splits)

text \<open>
  Claim C3, as stated, fails: the four replacements run one after the other on the whole
  text, so a field value that contains a later token is rewritten too. With
  \<open>first_name = "{{Job Title}}"\<close> the template \<open>{{First Name}}\<close> renders to the job title,
  not to the first name's text.
\<close>

theorem render_template_not_simultaneous:
  "render_template (\<lambda>sep t. []) (template_of [Placeholder ''First Name''])
     [(''first_name'', VStr ''{{Job Title}}''), (''job_title'', VStr ''CEO'')]
   \<noteq> concat (map (render_piece (\<lambda>sep t. [])
         [(''first_name'', VStr ''{{Job Title}}''), (''job_title'', VStr ''CEO'')])
       [Placeholder ''First Name''])"
  by (simp add: render_template_def replace_def placeholder_def dict_get_def py_or_def
      template_of_def field_text_def)

text \<open>
  Claim C3, amended: for a template made of brace-free text and of placeholders
  \<open>{{name}}\<close> with brace-free names, and field values for first name, company name and job
  title whose text has no opening brace, rendering replaces every occurrence of the four
  tokens \<open>{{First Name}}\<close>, \<open>{{Company Name}}\<close>, \<open>{{Job Title}}\<close>, \<open>{{Personalized Line}}\<close> by
  the text of \<open>first_name\<close>, \<open>company_name\<close>, \<open>job_title\<close>, \<open>personalized_line\<close> and leaves
  every other placeholder and all other text unchanged. The text of a field is empty when
  the field is absent, \<open>None\<close> or empty, and \<open>str\<close> of its value otherwise.
\<close>

theorem render_template_pieces:
  assumes "list_all plain_piece ps"
    and "CHR ''{'' \<notin> set (field_text fmt d ''first_name'')"
    and "CHR ''{'' \<notin> set (field_text fmt d ''company_name'')"
    and "CHR ''{'' \<notin> set (field_text fmt d ''job_title'')"
  shows "render_template fmt (template_of ps) d = concat (map (render_piece fmt d) ps)
     \<and> field_text fmt d f =
         (case map_of d f of None \<Rightarrow> [] | Some VNone \<Rightarrow> [] | Some (VStr s) \<Rightarrow> s
          | Some (VDate t) \<Rightarrow> fmt (CHR '' '') t | Some (VOid h) \<Rightarrow> h)"
proof -
  let ?s1 = "subst_piece ''First Name'' (field_text fmt d ''first_name'')"
  let ?s2 = "subst_piece ''Company Name'' (field_text fmt d ''company_name'')"
  let ?s3 = "subst_piece ''Job Title'' (field_text fmt d ''job_title'')"
  let ?s4 = "subst_piece ''Personalized Line'' (field_text fmt d ''personalized_line'')"
  have p1: "list_all plain_piece (map ?s1 ps)"
    using assms(1,2) by (rule plain_subst)
  have p2: "list_all plain_piece (map ?s2 (map ?s1 ps))"
    using p1 assms(3) by (rule plain_subst)
  have p3: "list_all plain_piece (map ?s3 (map ?s2 (map ?s1 ps)))"
    using p2 assms(4) by (rule plain_subst)
  have r1: "replace (template_of ps) (placeholder ''First Name'')
              (field_text fmt d ''first_name'') = template_of (map ?s1 ps)"
    by (rule replace_template_of [OF assms(1)]) simp
  have r2: "replace (template_of (map ?s1 ps)) (placeholder ''Company Name'')
              (field_text fmt d ''company_name'') = template_of (map ?s2 (map ?s1 ps))"
    by (rule replace_template_of [OF p1]) simp
  have r3: "replace (template_of (map ?s2 (map ?s1 ps))) (placeholder ''Job Title'')
              (field_text fmt d ''job_title'') = template_of (map ?s3 (map ?s2 (map ?s1 ps)))"
    by (rule replace_template_of [OF p2]) simp
  have r4: "replace (template_of (map ?s3 (map ?s2 (map ?s1 ps))))
              (placeholder ''Personalized Line'') (field_text fmt d ''personalized_line'')
            = template_of (map ?s4 (map ?s3 (map ?s2 (map ?s1 ps))))"
    by (rule replace_template_of [OF p3]) simp
  have "render_template fmt (template_of ps) d =
        template_of (map ?s4 (map ?s3 (map ?s2 (map ?s1 ps))))"
    by (simp only: render_template_passes r1 r2 r3 r4)
  also have "\<dots> = concat (map (render_piece fmt d) ps)"
    unfolding template_of_def
    by (simp add: render_pieces_pointwise o_def del: subst_piece.simps render_piece.simps)
  finally show ?thesis
    by (simp add: field_text_cases)
qed

theorem render_template_pieces_witness:
  "list_all plain_piece
     [Text ''Hi '', Placeholder ''First Name'', Text '' at '', Placeholder ''Company Name'',
      Text '', '', Placeholder ''Job Title'', Text '' - '', Placeholder ''Personalized Line'',
      Placeholder ''Unknown'']
   \<and> render_template (\<lambda>sep t. [])
       ''Hi {{First Name}} at {{Company Name}}, {{Job Title}} - {{Personalized Line}}{{Unknown}}''
       [(''company_name'', VStr ''Acme''), (''job_title'', VStr ''CEO''),
        (''personalized_line'', VStr ''Loved your {post}'')]
     = ''Hi  at Acme, CEO - Loved your {post}{{Unknown}}''"
  using render_template_pieces [of
     "[Text ''Hi '', Placeholder ''First Name'', Text '' at '', Placeholder ''Company Name'',
       Text '', '', Placeholder ''Job Title'', Text '' - '', Placeholder ''Personalized Line'',
       Placeholder ''Unknown'']"
     "(\<lambda>sep t. [])"
     "[(''company_name'', VStr ''Acme''), (''job_title'', VStr ''CEO''),
       (''personalized_line'', VStr ''Loved your {post}'')]"]
  by (simp add: template_of_def placeholder_def field_text_def dict_get_def py_or_def)

text \<open>
  Claim C10: the four substitutions are passes over the whole text in the order First Name,
  Company Name, Job Title, Personalized Line, not one simultaneous substitution. A
  \<open>first_name\<close> that contains \<open>{{Job Title}}\<close> has that token replaced by the job title in
  the same call, while a \<open>job_title\<close> that contains \<open>{{First Name}}\<close> keeps it, its pass
  being over.
\<close>

theorem render_template_sequential:
  "render_template fmt template data =
     replace (replace (replace (replace template
       (placeholder ''First Name'') (field_text fmt data ''first_name''))
       (placeholder ''Company Name'') (field_text fmt data ''company_name''))
       (placeholder ''Job Title'') (field_text fmt data ''job_title''))
       (placeholder ''Personalized Line'') (field_text fmt data ''personalized_line'')
   \<and> render_template fmt ''Dear {{First Name}}''
       [(''first_name'', VStr ''{{Job Title}}''), (''job_title'', VStr ''CEO'')] = ''Dear CEO''
   \<and> render_template fmt ''Dear {{Job Title}}''
       [(''first_name'', VStr ''Ann''), (''job_title'', VStr ''{{First Name}}'')]
       = ''Dear {{First Name}}''"
  by (simp add: render_template_def field_text_def replace_def placeholder_def dict_get_def
      py_or_def)

subsection \<open>Serialization\<close>

lemma update_middle:
  "k \<notin> fst ` set ys \<Longrightarrow> AList.update k v (ys @ (k, v0) # zs) = ys @ (k, v) # zs"
  by (induction ys) auto

lemma fold_dates_aux:
  "distinct (map fst (pre @ xs)) \<Longrightarrow>
   fold (\<lambda>(k, v) d. case v of VDate t \<Rightarrow> AList.update k (VStr (fmt (CHR ''T'') t)) d | _ \<Rightarrow> d) xs
     (map (\<lambda>(k, v). (k, isoformat_value fmt v)) pre @ xs)
   = map (\<lambda>(k, v). (k, isoformat_value fmt v)) (pre @ xs)"
proof (induction xs arbitrary: pre)
  case Nil
  then show ?case by simp
next
  case (Cons x xs)
  obtain k v where x: "x = (k, v)" by (cases x)
  from Cons.prems x have notin: "k \<notin> fst ` set (map (\<lambda>(k, v). (k, isoformat_value fmt v)) pre)"
    by (auto simp: image_iff)
  have d: "distinct (map fst ((pre @ [x]) @ xs))" using Cons.prems by simp
  have step: "(case v of VDate t \<Rightarrow> AList.update k (VStr (fmt (CHR ''T'') t))
                  (map (\<lambda>(k, v). (k, isoformat_value fmt v)) pre @ (k, v) # xs)
               | _ \<Rightarrow> map (\<lambda>(k, v). (k, isoformat_value fmt v)) pre @ (k, v) # xs)
        = map (\<lambda>(k, v). (k, isoformat_value fmt v)) (pre @ [x]) @ xs"
    using update_middle [OF notin] by (cases v) (simp_all add: x)
  show ?case
    using Cons.IH [OF d] step by (simp add: x)
qed

lemma fold_dates:
  "distinct (map fst d) \<Longrightarrow>
   fold (\<lambda>(k, v) d. case v of VDate t \<Rightarrow> AList.update k (VStr (fmt (CHR ''T'') t)) d | _ \<Rightarrow> d) d d
   = map (\<lambda>(k, v). (k, isoformat_value fmt v)) d"
  using fold_dates_aux [of "[]" d fmt] by simp

lemma serialize_copy_eq:
  assumes "distinct (map fst d)"
  shows "serialize_copy fmt d =
     map (\<lambda>(k, v). (k, isoformat_value fmt v))
       (case map_of d ''_id'' of None \<Rightarrow> d
        | Some v \<Rightarrow> AList.update ''id'' (VStr (py_str fmt v)) (AList.delete ''_id'' d))"
proof (cases "map_of d ''_id''")
  case None
  then show ?thesis using assms by (simp add: serialize_copy_def fold_dates)
next
  case (Some v)
  have "distinct (map fst (AList.update ''id'' (VStr (py_str fmt v)) (AList.delete ''_id'' d)))"
    using assms by (simp add: distinct_update distinct_delete)
  then show ?thesis using Some by (simp add: serialize_copy_def fold_dates)
qed

lemma serialize_copy_lookup:
  assumes "distinct (map fst d)"
  shows "map_of (serialize_copy fmt d) k =
     (if k = ''_id'' then None
      else if k = ''id'' \<and> map_of d ''_id'' \<noteq> None
           then Some (VStr (py_str fmt (the (map_of d ''_id''))))
      else map_option (isoformat_value fmt) (map_of d k))"
  using assms
  by (cases "map_of d ''_id''")
     (auto simp: serialize_copy_eq map_of_map update_conv' delete_conv')

lemma fst_isoformat_value: "fst \<circ> (\<lambda>(k, v). (k, isoformat_value fmt v)) = fst"
  by (auto simp: fun_eq_iff)

lemma serialize_copy_distinct:
  assumes "distinct (map fst d)"
  shows "distinct (map fst (serialize_copy fmt d))"
  using assms
  by (cases "map_of d ''_id''")
     (simp_all add: serialize_copy_eq distinct_update distinct_delete fst_isoformat_value)

text \<open>
  Claim C7: \<open>serialize\<close> returns an absent value as it is. For a record (a dict with
  distinct keys) the result has no \<open>_id\<close>; when the record has an \<open>_id\<close>, the result's
  \<open>id\<close> is the text of that identifier; every other field is there with its value, a
  datetime replaced by its ISO-8601 text. On the store of objects, the call allocates the
  result as a new object (or returns the falsy argument itself) and leaves every existing
  object, the argument among them, as it was.
\<close>

theorem serialize_spec:
  assumes "distinct (map fst d)" and "r < length h"
  shows "serialize fmt None = None
    \<and> (\<exists>d'. serialize fmt (Some d) = Some d'
          \<and> distinct (map fst d')
          \<and> map_of d' ''_id'' = None
          \<and> (case map_of d ''_id'' of
               Some v \<Rightarrow> map_of d' ''id'' = Some (VStr (py_str fmt v))
             | None \<Rightarrow> map_of d' ''id'' = map_option (isoformat_value fmt) (map_of d ''id''))
          \<and> (\<forall>k. k \<noteq> ''_id'' \<and> k \<noteq> ''id'' \<longrightarrow>
                 map_of d' k = map_option (isoformat_value fmt) (map_of d k)))
    \<and> serialize_call fmt h None = (h, None)
    \<and> (\<exists>h' r'. serialize_call fmt h (Some r) = (h', Some r')
          \<and> r' < length h' \<and> take (length h) h' = h \<and> h' ! r = h ! r
          \<and> Some (h' ! r') = serialize fmt (Some (h ! r)))"
proof -
  have a: "serialize fmt None = None" by (simp add: serialize_def)
  have eq: "serialize fmt (Some d) = Some (serialize_copy fmt d)"
    by (simp add: serialize_def serialize_copy_def)
  have b: "\<exists>d'. serialize fmt (Some d) = Some d'
          \<and> distinct (map fst d')
          \<and> map_of d' ''_id'' = None
          \<and> (case map_of d ''_id'' of
               Some v \<Rightarrow> map_of d' ''id'' = Some (VStr (py_str fmt v))
             | None \<Rightarrow> map_of d' ''id'' = map_option (isoformat_value fmt) (map_of d ''id''))
          \<and> (\<forall>k. k \<noteq> ''_id'' \<and> k \<noteq> ''id'' \<longrightarrow>
                 map_of d' k = map_option (isoformat_value fmt) (map_of d k))"
    unfolding eq
    using serialize_copy_distinct [OF assms(1)]
    by (auto simp: serialize_copy_lookup [OF assms(1)] split: option.splits)
  have c: "serialize_call fmt h None = (h, None)" by (simp add: serialize_call_def)
  have d: "\<exists>h' r'. serialize_call fmt h (Some r) = (h', Some r')
          \<and> r' < length h' \<and> take (length h) h' = h \<and> h' ! r = h ! r
          \<and> Some (h' ! r') = serialize fmt (Some (h ! r))"
    using assms(2) by (simp add: serialize_call_def serialize_def nth_append)
  from a b c d show ?thesis by blast
qed

theorem serialize_spec_witness:
  "distinct (map fst [(''_id'', VOid ''ab''), (''name'', VStr ''n''), (''created_at'', VDate 5)])
   \<and> (0::nat) < length [[(''_id'', VOid ''ab''), (''name'', VStr ''n''), (''created_at'', VDate 5)]]
   \<and> serialize (\<lambda>sep t. ''1970'') (Some [(''_id'', VOid ''ab''), (''name'', VStr ''n''), (''created_at'', VDate 5)])
      = Some [(''name'', VStr ''n''), (''created_at'', VStr ''1970''), (''id'', VStr ''ab'')]
   \<and> serialize_call (\<lambda>sep t. ''1970'') [[(''_id'', VOid ''ab''), (''name'', VStr ''n''), (''created_at'', VDate 5)]] (Some 0)
      = ([[(''_id'', VOid ''ab''), (''name'', VStr ''n''), (''created_at'', VDate 5)],
          [(''name'', VStr ''n''), (''created_at'', VStr ''1970''), (''id'', VStr ''ab'')]], Some 1)"
  using serialize_spec [of "[(''_id'', VOid ''ab''), (''name'', VStr ''n''), (''created_at'', VDate 5)]"
      0 "[[(''_id'', VOid ''ab''), (''name'', VStr ''n''), (''created_at'', VDate 5)]]" "(\<lambda>sep t. ''1970'')"]
  by (simp add: serialize_def serialize_call_def serialize_copy_def)

subsection \<open>Companies upload\<close>

lemma strip_trimmed:
  "strip s = [] \<or> (\<not> isspace (hd (strip s)) \<and> \<not> isspace (last (strip s)))"
proof (cases "strip s = []")
  case True
  then show ?thesis by simp
next
  case False
  let ?ys = "dropWhile isspace s"
  let ?zs = "dropWhile isspace (rev ?ys)"
  have s: "strip s = rev ?zs" by (simp add: strip_def)
  with False have zs: "?zs \<noteq> []" by simp
  have ys: "?ys \<noteq> []"
  proof
    assume "?ys = []"
    then have "?zs = []" by (simp only: rev.simps dropWhile.simps)
    with zs show False by simp
  qed
  have "last (strip s) = hd ?zs" using zs by (simp add: s last_rev)
  moreover have "\<not> isspace (hd ?zs)" using zs by (rule hd_dropWhile)
  moreover have "?ys = rev ?zs @ rev (takeWhile isspace (rev ?ys))"
    by (metis rev_append rev_rev_ident takeWhile_dropWhile_id)
  then have "hd ?ys = hd (strip s)" using False s by (metis hd_append2)
  moreover have "\<not> isspace (hd ?ys)" using ys by (rule hd_dropWhile)
  ultimately show ?thesis by simp
qed

lemma strip_decomposes:
  "\<exists>a b. s = a @ strip s @ b \<and> list_all isspace a \<and> list_all isspace b"
proof -
  let ?ys = "dropWhile isspace s"
  let ?a = "takeWhile isspace s"
  let ?b = "rev (takeWhile isspace (rev ?ys))"
  have ys: "?ys = strip s @ ?b"
    unfolding strip_def by (metis rev_append rev_rev_ident takeWhile_dropWhile_id)
  have "s = ?a @ ?ys" by simp
  then have "s = ?a @ strip s @ ?b" using ys by simp
  moreover have "list_all isspace ?a"
    by (simp add: list_all_iff) (meson set_takeWhileD)
  moreover have "list_all isspace ?b"
    by (simp add: list_all_iff) (meson set_takeWhileD)
  ultimately show ?thesis by blast
qed

lemma isspace_codes:
  "isspace c = (of_char c \<in> {9, 10, 11, 12, 13, 28, 29, 30, 31, 32, 133, 160 :: nat})"
proof -
  have "isspace c = (of_char c \<in> (of_char :: char \<Rightarrow> nat) `
      set [CHR 0x09, CHR 0x0A, CHR 0x0B, CHR 0x0C, CHR 0x0D,
           CHR 0x1C, CHR 0x1D, CHR 0x1E, CHR 0x1F, CHR 0x20, CHR 0x85, CHR 0xA0])"
    unfolding isspace_def by (rule inj_image_mem_iff [symmetric]) (simp add: inj_def)
  also have "\<dots> = (of_char c \<in> {9, 10, 11, 12, 13, 28, 29, 30, 31, 32, 133, 160 :: nat})"
    by simp
  finally show ?thesis .
qed

lemma upload_rows_eq:
  "fst (upload_rows e cid reader count w) = count + length (filter has_company_name reader)
   \<and> db (snd (upload_rows e cid reader count w)) c =
       (if c = ''company'' then db w ''company'' @
            map (\<lambda>i. (env_object_id e (object_ids w + i),
                       company_doc cid (filter has_company_name reader ! i)
                         (millis (env_clock e (clock_reads w + 2 * i)))
                         (millis (env_clock e (clock_reads w + 2 * i + 1)))))
              [0..<length (filter has_company_name reader)]
        else db w c)
   \<and> clock_reads (snd (upload_rows e cid reader count w)) =
       clock_reads w + 2 * length (filter has_company_name reader)
   \<and> object_ids (snd (upload_rows e cid reader count w)) =
       object_ids w + length (filter has_company_name reader)
   \<and> random_draws (snd (upload_rows e cid reader count w)) = random_draws w"
proof (induction reader arbitrary: count w)
  case Nil
  then show ?case by simp
next
  case (Cons row reader)
  show ?case
  proof (cases "has_company_name row")
    case False
    then have skip: "upload_rows e cid (row # reader) count w = upload_rows e cid reader count w"
      by (auto simp: has_company_name_def company_name_of_def split: option.splits)
    show ?thesis
      unfolding skip using Cons.IH [of count w] False by simp
  next
    case True
    then obtain name where name: "company_name_of row = Some name" "name \<noteq> []"
      by (auto simp: has_company_name_def split: option.splits)
    define w1 where "w1 = w\<lparr>clock_reads := Suc (Suc (clock_reads w)),
        db := (db w)(''company'' := db w ''company'' @
           [(env_object_id e (object_ids w),
             company_doc cid row (millis (env_clock e (clock_reads w)))
               (millis (env_clock e (Suc (clock_reads w)))))]),
        object_ids := Suc (object_ids w)\<rparr>"
    have step: "upload_rows e cid (row # reader) count w = upload_rows e cid reader (count + 1) w1"
      using name
      by (simp add: Let_def now_def insert_one_def company_name_of_def [symmetric]
          linkedin_url_of_def [symmetric] company_doc_def or_text_def w1_def encode_def)
    have w1s: "db w1 c = (if c = ''company'' then db w ''company'' @
           [(env_object_id e (object_ids w),
             company_doc cid row (millis (env_clock e (clock_reads w)))
               (millis (env_clock e (Suc (clock_reads w)))))]
           else db w c)"
      "db w1 ''company'' = db w ''company'' @
           [(env_object_id e (object_ids w),
             company_doc cid row (millis (env_clock e (clock_reads w)))
               (millis (env_clock e (Suc (clock_reads w)))))]"
      "clock_reads w1 = Suc (Suc (clock_reads w))" "object_ids w1 = Suc (object_ids w)"
      "random_draws w1 = random_draws w"
      by (simp_all add: w1_def)
    show ?thesis
      unfolding step using Cons.IH [of "count + 1" w1] True
      by (simp add: w1s map_upt_Suc del: upt_Suc)
  qed
qed

text \<open>
  Claim C6: with a content type outside \<open>text/csv\<close>, \<open>application/vnd.ms-excel\<close> and
  \<open>application/csv\<close> the upload raises HTTP 400 "Please upload a CSV file" and the state
  is unchanged. With an accepted one, the rows without a company name (absent or empty
  under both headers) are skipped, every other row becomes, in order, one new Company
  document of the campaign with the stripped name and URL, the response counts exactly
  those rows, and no other collection changes; the timestamps are stored to the millisecond.
  The stripped text of \<open>s\<close> is \<open>s\<close> without a longest prefix and a longest suffix made of
  whitespace: \<open>s\<close> is whitespace, the stripped text, whitespace, and the stripped text neither
  starts nor ends with whitespace. Whitespace is the characters 9 to 13, 28 to 32, 133 and 160.
\<close>

theorem upload_companies_spec:
  "(\<not> accepted_csv content_type \<longrightarrow>
      upload_companies e campaign_id content_type reader w =
        (Inl (HTTPException 400 ''Please upload a CSV file''), w))
   \<and> (accepted_csv content_type \<longrightarrow>
        fst (upload_companies e campaign_id content_type reader w) =
          Inr (length (filter has_company_name reader))
        \<and> db (snd (upload_companies e campaign_id content_type reader w)) ''company'' =
            db w ''company'' @
            map (\<lambda>i. (env_object_id e (object_ids w + i),
                       company_doc campaign_id (filter has_company_name reader ! i)
                         (millis (env_clock e (clock_reads w + 2 * i)))
                         (millis (env_clock e (clock_reads w + 2 * i + 1)))))
              [0..<length (filter has_company_name reader)]
        \<and> (\<forall>c. c \<noteq> ''company'' \<longrightarrow>
              db (snd (upload_companies e campaign_id content_type reader w)) c = db w c))
   \<and> (\<exists>a b. s = a @ strip s @ b \<and> list_all isspace a \<and> list_all isspace b)
   \<and> (strip s = [] \<or> (\<not> isspace (hd (strip s)) \<and> \<not> isspace (last (strip s))))
   \<and> isspace ch = (of_char ch \<in> {9, 10, 11, 12, 13, 28, 29, 30, 31, 32, 133, 160 :: nat})"
proof -
  have rejected: "upload_companies e campaign_id content_type reader w =
        (Inl (HTTPException 400 ''Please upload a CSV file''), w)"
    if "\<not> accepted_csv content_type"
    using that by (auto simp: upload_companies_def accepted_csv_def)
  have accepted: "upload_companies e campaign_id content_type reader w =
        (Inr (fst (upload_rows e campaign_id reader 0 w)),
         snd (upload_rows e campaign_id reader 0 w))"
    if "accepted_csv content_type"
    using that by (auto simp: upload_companies_def accepted_csv_def split_def Let_def)
  show ?thesis
    using rejected accepted upload_rows_eq [of e campaign_id reader 0 w] strip_trimmed [of s]
      strip_decomposes [of s] isspace_codes [of ch]
    by (auto simp del: upt_Suc)
qed

theorem upload_companies_spec_witness:
  "accepted_csv (Some ''text/csv'') \<and> \<not> accepted_csv (Some ''application/pdf'')
   \<and> fst (upload_companies
        \<lparr>env_clock = (\<lambda>i. 1500 + int i), env_random = (\<lambda>i. i),
         env_object_id = (\<lambda>i. replicate i CHR ''a''), env_isoformat = (\<lambda>sep t. [])\<rparr>
        ''c1'' (Some ''text/csv'')
        [[(''Company Name'', CHR 0xA0 # '' Acme Inc '')],
         [(''Company Name'', []), (''linkedin_url'', ''u'')],
         [(''company_name'', ''Bolt''), (''linkedin_url'', ''u '')]]
        \<lparr>db = (\<lambda>c. []), clock_reads = 0, random_draws = 0, object_ids = 0\<rparr>) = Inr 2
   \<and> db (snd (upload_companies
        \<lparr>env_clock = (\<lambda>i. 1500 + int i), env_random = (\<lambda>i. i),
         env_object_id = (\<lambda>i. replicate i CHR ''a''), env_isoformat = (\<lambda>sep t. [])\<rparr>
        ''c1'' (Some ''text/csv'')
        [[(''Company Name'', CHR 0xA0 # '' Acme Inc '')],
         [(''Company Name'', []), (''linkedin_url'', ''u'')],
         [(''company_name'', ''Bolt''), (''linkedin_url'', ''u '')]]
        \<lparr>db = (\<lambda>c. []), clock_reads = 0, random_draws = 0, object_ids = 0\<rparr>)) ''company''
      = [([], [(''campaign_id'', VStr ''c1''), (''company_name'', VStr ''Acme Inc''),
               (''linkedin_url'', VStr []), (''created_at'', VDate 1000),
               (''updated_at'', VDate 1000)]),
         (''a'', [(''campaign_id'', VStr ''c1''), (''company_name'', VStr ''Bolt''),
                  (''linkedin_url'', VStr ''u''), (''created_at'', VDate 1000),
                  (''updated_at'', VDate 1000)])]
   \<and> upload_companies
        \<lparr>env_clock = (\<lambda>i. 1500 + int i), env_random = (\<lambda>i. i),
         env_object_id = (\<lambda>i. replicate i CHR ''a''), env_isoformat = (\<lambda>sep t. [])\<rparr>
        ''c1'' (Some ''application/pdf'')
        [[(''Company Name'', '' Acme '')]]
        \<lparr>db = (\<lambda>c. []), clock_reads = 0, random_draws = 0, object_ids = 0\<rparr>
      = (Inl (HTTPException 400 ''Please upload a CSV file''),
         \<lparr>db = (\<lambda>c. []), clock_reads = 0, random_draws = 0, object_ids = 0\<rparr>)"
  using upload_companies_spec [of "Some ''text/csv''"
        "\<lparr>env_clock = (\<lambda>i. 1500 + int i), env_random = (\<lambda>i. i),
         env_object_id = (\<lambda>i. replicate i CHR ''a''), env_isoformat = (\<lambda>sep t. [])\<rparr>" "''c1''"
        "[[(''Company Name'', CHR 0xA0 # '' Acme Inc '')],
         [(''Company Name'', []), (''linkedin_url'', ''u'')],
         [(''company_name'', ''Bolt''), (''linkedin_url'', ''u '')]]"
        "\<lparr>db = (\<lambda>c. []), clock_reads = 0, random_draws = 0, object_ids = 0\<rparr>" "[]"
        "CHR '' ''"]
    upload_companies_spec [of "Some ''application/pdf''"
        "\<lparr>env_clock = (\<lambda>i. 1500 + int i), env_random = (\<lambda>i. i),
         env_object_id = (\<lambda>i. replicate i CHR ''a''), env_isoformat = (\<lambda>sep t. [])\<rparr>" "''c1''"
        "[[(''Company Name'', '' Acme '')]]"
        "\<lparr>db = (\<lambda>c. []), clock_reads = 0, random_draws = 0, object_ids = 0\<rparr>" "[]"
        "CHR '' ''"]
  by (simp add: accepted_csv_def has_company_name_def company_name_of_def or_else_def
        company_doc_def linkedin_url_of_def or_text_def strip_def isspace_def millis_def
        upt_rec [of 0] upt_rec [of 1] upt_rec [of "Suc 0"])

subsection \<open>Prospect search\<close>

lemma create_prospect_eq:
  "create_prospect e cid q c (created, w) =
     (created + 1,
      w\<lparr>random_draws := random_draws w + 4, clock_reads := clock_reads w + 2,
        db := (db w)(''prospect'' := db w ''prospect'' @
           [created_prospect e cid q [c] (random_draws w) (clock_reads w) (object_ids w) 0]),
        object_ids := Suc (object_ids w)\<rparr>)"
  by (simp add: create_prospect_def choice_def now_def insert_one_def Let_def
      created_prospect_def prospect_doc_def first_names_def last_names_def encode_def)

lemma upt_2: "[0..<2] = [0, Suc 0]"
  by (simp add: upt_rec)

lemma create_prospects_eq:
  "fst (create_prospects e cid q cs (created, w)) = created + 2 * length cs
   \<and> db (snd (create_prospects e cid q cs (created, w))) c =
       (if c = ''prospect'' then db w ''prospect'' @
          map (created_prospect e cid q cs (random_draws w) (clock_reads w) (object_ids w))
            [0..<2 * length cs]
        else db w c)
   \<and> random_draws (snd (create_prospects e cid q cs (created, w))) = random_draws w + 8 * length cs
   \<and> clock_reads (snd (create_prospects e cid q cs (created, w))) = clock_reads w + 4 * length cs
   \<and> object_ids (snd (create_prospects e cid q cs (created, w))) = object_ids w + 2 * length cs"
proof (induction cs arbitrary: created w)
  case Nil
  then show ?case by (simp add: create_prospects_def)
next
  case (Cons a cs)
  define w2 where "w2 = w\<lparr>random_draws := random_draws w + 8, clock_reads := clock_reads w + 4,
        db := (db w)(''prospect'' := db w ''prospect'' @
           [created_prospect e cid q (a # cs) (random_draws w) (clock_reads w) (object_ids w) 0,
            created_prospect e cid q (a # cs) (random_draws w) (clock_reads w) (object_ids w) 1]),
        object_ids := object_ids w + 2\<rparr>"
  have step: "create_prospects e cid q (a # cs) (created, w) =
        create_prospects e cid q cs (created + 2, w2)"
    by (simp add: create_prospects_def upt_2 create_prospect_eq w2_def created_prospect_def eval_nat_numeral)
  have w2s: "db w2 c = (if c = ''prospect'' then db w ''prospect'' @
           [created_prospect e cid q (a # cs) (random_draws w) (clock_reads w) (object_ids w) 0,
            created_prospect e cid q (a # cs) (random_draws w) (clock_reads w) (object_ids w) 1]
           else db w c)"
    "db w2 ''prospect'' = db w ''prospect'' @
           [created_prospect e cid q (a # cs) (random_draws w) (clock_reads w) (object_ids w) 0,
            created_prospect e cid q (a # cs) (random_draws w) (clock_reads w) (object_ids w) 1]"
    "clock_reads w2 = clock_reads w + 4" "object_ids w2 = object_ids w + 2"
    "random_draws w2 = random_draws w + 8"
    by (simp_all add: w2_def)
  have shift: "created_prospect e cid q cs (random_draws w + 8) (clock_reads w + 4) (Suc (Suc (object_ids w))) i
      = created_prospect e cid q (a # cs) (random_draws w) (clock_reads w) (object_ids w) (Suc (Suc i))" for i
  proof -
    have a: "random_draws w + 8 + 4 * i = random_draws w + 4 * Suc (Suc i)"
      "clock_reads w + 4 + 2 * i = clock_reads w + 2 * Suc (Suc i)"
      "Suc (Suc (object_ids w)) + i = object_ids w + Suc (Suc i)"
      by simp_all
    show ?thesis
      unfolding created_prospect_def a by (simp only: div2_Suc_Suc nth_Cons_Suc)
  qed
  show ?case
    unfolding step using Cons.IH [of "created + 2" w2]
    by (simp add: w2s shift map_upt_Suc del: upt_Suc)
qed

lemma created_prospect_fields:
  "map_of (snd (created_prospect e cid q cs rd cr oid i)) ''status'' = Some (VStr ''pending'')
   \<and> map_of (snd (created_prospect e cid q cs rd cr oid i)) ''job_title'' = Some (VStr q)
   \<and> map_of (snd (created_prospect e cid q cs rd cr oid i)) ''campaign_id'' = Some (VStr cid)
   \<and> (\<exists>f. f \<in> set first_names
          \<and> map_of (snd (created_prospect e cid q cs rd cr oid i)) ''first_name'' = Some (VStr f))
   \<and> (\<exists>l. l \<in> set last_names
          \<and> map_of (snd (created_prospect e cid q cs rd cr oid i)) ''last_name'' = Some (VStr l))"
proof -
  have "first_names ! (env_random e (rd + 4 * i) mod length first_names) \<in> set first_names"
    by (rule nth_mem) (simp add: first_names_def)
  moreover
  have "last_names ! (env_random e (rd + 4 * i + 2) mod length last_names) \<in> set last_names"
    by (rule nth_mem) (simp add: last_names_def)
  ultimately show ?thesis
    by (simp add: created_prospect_def prospect_doc_def)
qed

text \<open>
  Claim C4: the search raises HTTP 400 "No companies found for this campaign" and leaves
  the state unchanged exactly when no Company document has the campaign's identifier.
  Otherwise, with \<open>N\<close> such companies, it answers \<open>2N\<close> and appends exactly \<open>2N\<close> Prospect
  documents, two for each company in order, to the prospect collection and changes no other
  collection; each of them has status \<open>pending\<close>, the requested job title, a first name
  from Alex, Jordan, Taylor, Casey, Riley, Drew, Chris and a last name from Smith, Johnson,
  Lee, Brown, Davis, Miller, with nothing appended.
\<close>

theorem search_and_create_prospects_spec:
  "(find w ''company'' [Eq ''campaign_id'' (VStr campaign_id)] = [] \<longrightarrow>
      search_and_create_prospects e campaign_id (ProspectSearchRequest job_title_query) w =
        (Inl (HTTPException 400 ''No companies found for this campaign''), w))
   \<and> (find w ''company'' [Eq ''campaign_id'' (VStr campaign_id)] \<noteq> [] \<longrightarrow>
        fst (search_and_create_prospects e campaign_id (ProspectSearchRequest job_title_query) w)
          = Inr (2 * length (find w ''company'' [Eq ''campaign_id'' (VStr campaign_id)]))
        \<and> db (snd (search_and_create_prospects e campaign_id
                    (ProspectSearchRequest job_title_query) w)) ''prospect''
          = db w ''prospect'' @
            map (created_prospect e campaign_id job_title_query
                   (map doc_dict (find w ''company'' [Eq ''campaign_id'' (VStr campaign_id)]))
                   (random_draws w) (clock_reads w) (object_ids w))
              [0..<2 * length (find w ''company'' [Eq ''campaign_id'' (VStr campaign_id)])]
        \<and> (\<forall>c. c \<noteq> ''prospect'' \<longrightarrow>
              db (snd (search_and_create_prospects e campaign_id
                        (ProspectSearchRequest job_title_query) w)) c = db w c))
   \<and> map_of (snd (created_prospect e campaign_id job_title_query cs rd cr oid i)) ''status''
        = Some (VStr ''pending'')
   \<and> map_of (snd (created_prospect e campaign_id job_title_query cs rd cr oid i)) ''job_title''
        = Some (VStr job_title_query)
   \<and> (\<exists>f. f \<in> set [''Alex'', ''Jordan'', ''Taylor'', ''Casey'', ''Riley'', ''Drew'', ''Chris'']
          \<and> map_of (snd (created_prospect e campaign_id job_title_query cs rd cr oid i))
               ''first_name'' = Some (VStr f))
   \<and> (\<exists>l. l \<in> set [''Smith'', ''Johnson'', ''Lee'', ''Brown'', ''Davis'', ''Miller'']
          \<and> map_of (snd (created_prospect e campaign_id job_title_query cs rd cr oid i))
               ''last_name'' = Some (VStr l))"
proof -
  let ?cs = "find w ''company'' [Eq ''campaign_id'' (VStr campaign_id)]"
  have none: "search_and_create_prospects e campaign_id (ProspectSearchRequest job_title_query) w =
        (Inl (HTTPException 400 ''No companies found for this campaign''), w)"
    if "?cs = []"
    using that by simp
  have some: "search_and_create_prospects e campaign_id (ProspectSearchRequest job_title_query) w =
        (Inr (fst (create_prospects e campaign_id job_title_query (map doc_dict ?cs) (0, w))),
         snd (create_prospects e campaign_id job_title_query (map doc_dict ?cs) (0, w)))"
    if "?cs \<noteq> []"
    using that by (simp add: Let_def split_def)
  have names: "set first_names = set [''Alex'', ''Jordan'', ''Taylor'', ''Casey'', ''Riley'', ''Drew'', ''Chris'']"
    "set last_names = set [''Smith'', ''Johnson'', ''Lee'', ''Brown'', ''Davis'', ''Miller'']"
    by (simp_all only: first_names_def last_names_def)
  show ?thesis
    using none some create_prospects_eq [of e campaign_id job_title_query "map doc_dict ?cs" 0 w]
      created_prospect_fields [of e campaign_id job_title_query cs rd cr oid i]
    unfolding names
    by (auto simp del: upt_Suc set_simps)
qed

theorem search_and_create_prospects_spec_witness:
  "find \<lparr>db = (\<lambda>c. []), clock_reads = 0, random_draws = 0, object_ids = 0\<rparr> ''company''
      [Eq ''campaign_id'' (VStr ''c1'')] = []
   \<and> search_and_create_prospects
        \<lparr>env_clock = (\<lambda>i. int i), env_random = (\<lambda>i. i),
         env_object_id = (\<lambda>i. replicate i CHR ''a''), env_isoformat = (\<lambda>sep t. [])\<rparr>
        ''c1'' (ProspectSearchRequest ''CTO'')
        \<lparr>db = (\<lambda>c. []), clock_reads = 0, random_draws = 0, object_ids = 0\<rparr>
      = (Inl (HTTPException 400 ''No companies found for this campaign''),
         \<lparr>db = (\<lambda>c. []), clock_reads = 0, random_draws = 0, object_ids = 0\<rparr>)
   \<and> find \<lparr>db = (\<lambda>c. if c = ''company''
                        then [(''f00'', [(''campaign_id'', VStr ''c1''),
                                         (''company_name'', VStr ''Acme'')])]
                        else []),
            clock_reads = 0, random_draws = 0, object_ids = 0\<rparr> ''company''
        [Eq ''campaign_id'' (VStr ''c1'')] \<noteq> []
   \<and> fst (search_and_create_prospects
        \<lparr>env_clock = (\<lambda>i. int i), env_random = (\<lambda>i. i),
         env_object_id = (\<lambda>i. replicate i CHR ''a''), env_isoformat = (\<lambda>sep t. [])\<rparr>
        ''c1'' (ProspectSearchRequest ''CTO'')
        \<lparr>db = (\<lambda>c. if c = ''company''
                       then [(''f00'', [(''campaign_id'', VStr ''c1''),
                                        (''company_name'', VStr ''Acme'')])]
                       else []),
          clock_reads = 0, random_draws = 0, object_ids = 0\<rparr>) = Inr 2"
  using search_and_create_prospects_spec [of
        "\<lparr>db = (\<lambda>c. []), clock_reads = 0, random_draws = 0, object_ids = 0\<rparr>" "''c1''"
        "\<lparr>env_clock = (\<lambda>i. int i), env_random = (\<lambda>i. i),
         env_object_id = (\<lambda>i. replicate i CHR ''a''), env_isoformat = (\<lambda>sep t. [])\<rparr>"
        "''CTO''" "[]" 0 0 0 0]
    search_and_create_prospects_spec [of
        "\<lparr>db = (\<lambda>c. if c = ''company''
                       then [(''f00'', [(''campaign_id'', VStr ''c1''),
                                        (''company_name'', VStr ''Acme'')])]
                       else []),
          clock_reads = 0, random_draws = 0, object_ids = 0\<rparr>" "''c1''"
        "\<lparr>env_clock = (\<lambda>i. int i), env_random = (\<lambda>i. i),
         env_object_id = (\<lambda>i. replicate i CHR ''a''), env_isoformat = (\<lambda>sep t. [])\<rparr>"
        "''CTO''" "[]" 0 0 0 0]
  by (simp add: find_def matches_def doc_dict_def)

subsection \<open>Template upsert\<close>

lemma matches_campaign:
  "matches [Eq ''campaign_id'' (VStr cid)] doc \<longleftrightarrow> map_of (snd doc) ''campaign_id'' = Some (VStr cid)"
  by (auto simp: matches_def doc_dict_def split: option.splits)

lemma map_of_apply_set_other:
  "k \<notin> fst ` set sets \<Longrightarrow> map_of (apply_set sets d) k = map_of d k"
  unfolding apply_set_def
  by (induction sets arbitrary: d) (auto simp: update_conv')

lemma filter_update_first:
  assumes "\<And>doc. P doc \<Longrightarrow> P (fst doc, f (snd doc))"
  shows "filter P (update_first P f docs) =
     (case filter P docs of [] \<Rightarrow> [] | doc # rest \<Rightarrow> (fst doc, f (snd doc)) # rest)"
  using assms by (induction docs) auto

lemma list_ex_filter: "list_ex P xs \<longleftrightarrow> filter P xs \<noteq> []"
  by (induction xs) auto

text \<open>One call: what the campaign's template documents are afterwards.\<close>

lemma upsert_templates_find:
  "find (snd (upsert_templates e (TemplateSet cid conn follow) w)) ''template''
      [Eq ''campaign_id'' (VStr cid)] =
     (case find w ''template'' [Eq ''campaign_id'' (VStr cid)] of
        [] \<Rightarrow> [(env_object_id e (object_ids w),
                [(''campaign_id'', VStr cid), (''connection_template'', VStr conn),
                 (''followup_template'', VStr follow),
                 (''updated_at'', VDate (millis (env_clock e (clock_reads w)))),
                 (''created_at'', VDate (millis (env_clock e (Suc (clock_reads w)))))])]
      | doc # rest \<Rightarrow>
          (fst doc, apply_set [(''connection_template'', VStr conn),
                               (''followup_template'', VStr follow),
                               (''updated_at'', VDate (millis (env_clock e (clock_reads w))))] (snd doc))
          # rest)
   \<and> clock_reads (snd (upsert_templates e (TemplateSet cid conn follow) w)) = clock_reads w + 2"
proof (cases "find w ''template'' [Eq ''campaign_id'' (VStr cid)]")
  case Nil
  then have no: "\<not> list_ex (matches [Eq ''campaign_id'' (VStr cid)]) (db w ''template'')"
    by (simp add: list_ex_filter find_def)
  show ?thesis
    using Nil no
    by (simp add: Let_def now_def update_one_def insert_one_def find_def apply_set_def
        matches_campaign encode_def)
next
  case (Cons doc rest)
  then have yes: "list_ex (matches [Eq ''campaign_id'' (VStr cid)]) (db w ''template'')"
    by (simp add: list_ex_filter find_def)
  have keep: "matches [Eq ''campaign_id'' (VStr cid)]
        (fst d, apply_set [(''connection_template'', VStr conn),
                           (''followup_template'', VStr follow),
                           (''updated_at'', VDate t)] (snd d))"
    if "matches [Eq ''campaign_id'' (VStr cid)] d" for d t
    using that by (simp add: matches_campaign map_of_apply_set_other)
  have upd: "filter (matches [Eq ''campaign_id'' (VStr cid)])
        (update_first (matches [Eq ''campaign_id'' (VStr cid)])
           (apply_set [(''connection_template'', VStr conn),
                       (''followup_template'', VStr follow),
                       (''updated_at'', VDate (millis (env_clock e (clock_reads w))))])
           (db w ''template''))
      = (fst doc, apply_set [(''connection_template'', VStr conn),
                             (''followup_template'', VStr follow),
                             (''updated_at'', VDate (millis (env_clock e (clock_reads w))))] (snd doc))
        # rest"
    using Cons
    by (subst filter_update_first) (simp_all add: keep find_def)
  show ?thesis
    using Cons yes
    by (simp add: Let_def now_def update_one_def find_def upd encode_def)
qed

lemma map_of_template_set:
  "map_of (apply_set [(''connection_template'', VStr conn), (''followup_template'', VStr follow),
                      (''updated_at'', VDate t)] d) k =
     (if k = ''updated_at'' then Some (VDate t)
      else if k = ''followup_template'' then Some (VStr follow)
      else if k = ''connection_template'' then Some (VStr conn)
      else map_of d k)"
  by (simp add: apply_set_def update_conv')

lemma millis_mono: "a \<le> b \<Longrightarrow> millis a \<le> millis b"
proof -
  assume "a \<le> b"
  then have "a div 1000 \<le> b div 1000" by (rule zdiv_mono1) simp
  then have "1000 * (a div 1000) \<le> 1000 * (b div 1000)" by simp
  moreover have "millis a = 1000 * (a div 1000)" "millis b = 1000 * (b div 1000)"
    unfolding millis_def by (simp_all add: minus_mod_eq_mult_div)
  ultimately show ?thesis by simp
qed

lemma millis_bounds: "millis a \<le> a" "a < millis a + 1000"
proof -
  have "0 \<le> a mod 1000" "a mod 1000 < 1000" by simp_all
  then show "millis a \<le> a" "a < millis a + 1000"
    unfolding millis_def by linarith+
qed

lemma millis_strict: "a + 1000 \<le> b \<Longrightarrow> millis a < millis b"
proof -
  assume "a + 1000 \<le> b"
  then have "millis (a + 1000) \<le> millis b" by (rule millis_mono)
  moreover have "millis (a + 1000) = millis a + 1000" by (simp add: millis_def)
  ultimately show ?thesis by simp
qed

text \<open>
  Two calls that read a clock which advances, by one microsecond per reading, leave the
  same \<open>updated_at\<close>: the store keeps the millisecond, and both readings lie in the same one.
\<close>

theorem upsert_templates_same_updated_at:
  "map (\<lambda>d. map_of (snd d) ''updated_at'')
     (find (snd (upsert_templates
        \<lparr>env_clock = (\<lambda>i. 10 + int i), env_random = (\<lambda>i. i),
         env_object_id = (\<lambda>i. replicate i CHR ''a''), env_isoformat = (\<lambda>sep t. [])\<rparr>
        (TemplateSet ''c1'' ''A'' ''B'')
        \<lparr>db = (\<lambda>c. []), clock_reads = 0, random_draws = 0, object_ids = 0\<rparr>))
        ''template'' [Eq ''campaign_id'' (VStr ''c1'')])
     = [Some (VDate 0)]
   \<and> map (\<lambda>d. map_of (snd d) ''updated_at'')
     (find (snd (upsert_templates
        \<lparr>env_clock = (\<lambda>i. 10 + int i), env_random = (\<lambda>i. i),
         env_object_id = (\<lambda>i. replicate i CHR ''a''), env_isoformat = (\<lambda>sep t. [])\<rparr>
        (TemplateSet ''c1'' ''A'' ''B'')
        (snd (upsert_templates
          \<lparr>env_clock = (\<lambda>i. 10 + int i), env_random = (\<lambda>i. i),
           env_object_id = (\<lambda>i. replicate i CHR ''a''), env_isoformat = (\<lambda>sep t. [])\<rparr>
          (TemplateSet ''c1'' ''A'' ''B'')
          \<lparr>db = (\<lambda>c. []), clock_reads = 0, random_draws = 0, object_ids = 0\<rparr>))))
        ''template'' [Eq ''campaign_id'' (VStr ''c1'')])
     = [Some (VDate 0)]
   \<and> (10 :: int) < 10 + int 2"
  by (simp add: Let_def now_def update_one_def insert_one_def find_def apply_set_def
        matches_def doc_dict_def encode_def millis_def)

text \<open>
  Claim C5, amended: starting with at most one Template document for the campaign, two
  upsert calls for it leave exactly one such document. After the second call it is the
  document of after the first call with the same \<open>created_at\<close> (which the first call set,
  from its own second clock reading, when it created the document), with the second call's
  templates, and with \<open>updated_at\<close> the first clock reading of the second call where the
  first call had left its own, both to the millisecond. So \<open>updated_at\<close> does not decrease
  when the clock did not go back between the two calls, and it increases when the second
  call read the clock at least one millisecond after the first; without that it may stay
  the same.
\<close>

theorem upsert_templates_twice:
  assumes "length (find w ''template'' [Eq ''campaign_id'' (VStr cid)]) \<le> 1"
  shows "\<exists>d1 d2 t1 t2.
     find (snd (upsert_templates e (TemplateSet cid conn1 follow1) w)) ''template''
       [Eq ''campaign_id'' (VStr cid)] = [d1]
     \<and> find (snd (upsert_templates e (TemplateSet cid conn2 follow2)
                (snd (upsert_templates e (TemplateSet cid conn1 follow1) w)))) ''template''
         [Eq ''campaign_id'' (VStr cid)] = [d2]
     \<and> fst d2 = fst d1
     \<and> map_of (snd d2) ''created_at'' = map_of (snd d1) ''created_at''
     \<and> (find w ''template'' [Eq ''campaign_id'' (VStr cid)] = [] \<longrightarrow>
          map_of (snd d1) ''created_at'' = Some (VDate (millis (env_clock e (clock_reads w + 1)))))
     \<and> (\<forall>d0. find w ''template'' [Eq ''campaign_id'' (VStr cid)] = [d0] \<longrightarrow>
          fst d1 = fst d0 \<and> map_of (snd d1) ''created_at'' = map_of (snd d0) ''created_at'')
     \<and> map_of (snd d1) ''updated_at'' = Some (VDate t1)
     \<and> map_of (snd d2) ''updated_at'' = Some (VDate t2)
     \<and> t1 = millis (env_clock e (clock_reads w))
     \<and> t2 = millis (env_clock e (clock_reads w + 2))
     \<and> (env_clock e (clock_reads w) \<le> env_clock e (clock_reads w + 2) \<longrightarrow> t1 \<le> t2)
     \<and> (env_clock e (clock_reads w) + 1000 \<le> env_clock e (clock_reads w + 2) \<longrightarrow> t1 < t2)
     \<and> map_of (snd d1) ''connection_template'' = Some (VStr conn1)
     \<and> map_of (snd d1) ''followup_template'' = Some (VStr follow1)
     \<and> map_of (snd d2) ''connection_template'' = Some (VStr conn2)
     \<and> map_of (snd d2) ''followup_template'' = Some (VStr follow2)"
proof -
  let ?q = "[Eq ''campaign_id'' (VStr cid)]"
  let ?w1 = "snd (upsert_templates e (TemplateSet cid conn1 follow1) w)"
  let ?w2 = "snd (upsert_templates e (TemplateSet cid conn2 follow2) ?w1)"
  note first = upsert_templates_find [of e cid conn1 follow1 w]
  note second = upsert_templates_find [of e cid conn2 follow2 ?w1]
  note m = millis_mono [of "env_clock e (clock_reads w)" "env_clock e (clock_reads w + 2)"]
    millis_strict [of "env_clock e (clock_reads w)" "env_clock e (clock_reads w + 2)"]
  show ?thesis
  proof (cases "find w ''template'' ?q")
    case Nil
    then show ?thesis
      using first second m by (simp add: map_of_template_set)
  next
    case (Cons d0 rest)
    with assms(1) have rest: "rest = []" by simp
    show ?thesis
      using first second m Cons rest by (simp add: map_of_template_set)
  qed
qed

theorem upsert_templates_twice_witness:
  "length (find \<lparr>db = (\<lambda>c. []), clock_reads = 0, random_draws = 0, object_ids = 0\<rparr> ''template''
      [Eq ''campaign_id'' (VStr ''c1'')]) \<le> 1
   \<and> (\<exists>d1 d2.
       find (snd (upsert_templates
          \<lparr>env_clock = (\<lambda>i. 1000 * int i), env_random = (\<lambda>i. i),
           env_object_id = (\<lambda>i. replicate i CHR ''a''), env_isoformat = (\<lambda>sep t. [])\<rparr>
          (TemplateSet ''c1'' ''A'' ''B'')
          \<lparr>db = (\<lambda>c. []), clock_reads = 0, random_draws = 0, object_ids = 0\<rparr>))
          ''template'' [Eq ''campaign_id'' (VStr ''c1'')] = [d1]
     \<and> find (snd (upsert_templates
          \<lparr>env_clock = (\<lambda>i. 1000 * int i), env_random = (\<lambda>i. i),
           env_object_id = (\<lambda>i. replicate i CHR ''a''), env_isoformat = (\<lambda>sep t. [])\<rparr>
          (TemplateSet ''c1'' ''C'' ''D'')
          (snd (upsert_templates
            \<lparr>env_clock = (\<lambda>i. 1000 * int i), env_random = (\<lambda>i. i),
             env_object_id = (\<lambda>i. replicate i CHR ''a''), env_isoformat = (\<lambda>sep t. [])\<rparr>
            (TemplateSet ''c1'' ''A'' ''B'')
            \<lparr>db = (\<lambda>c. []), clock_reads = 0, random_draws = 0, object_ids = 0\<rparr>))))
          ''template'' [Eq ''campaign_id'' (VStr ''c1'')] = [d2]
     \<and> map_of (snd d1) ''created_at'' = Some (VDate 1000)
     \<and> map_of (snd d2) ''created_at'' = Some (VDate 1000)
     \<and> map_of (snd d1) ''updated_at'' = Some (VDate 0)
     \<and> map_of (snd d2) ''updated_at'' = Some (VDate 2000))"
  using upsert_templates_twice [of
      "\<lparr>db = (\<lambda>c. []), clock_reads = 0, random_draws = 0, object_ids = 0\<rparr>" "''c1''"
      "\<lparr>env_clock = (\<lambda>i. 1000 * int i), env_random = (\<lambda>i. i),
        env_object_id = (\<lambda>i. replicate i CHR ''a''), env_isoformat = (\<lambda>sep t. [])\<rparr>"
      "''A''" "''B''" "''C''" "''D''"]
  by (auto simp add: find_def millis_def)

subsection \<open>Automation engine: one step, one loop\<close>

text \<open>The filters of the engine's queries, read on the stored document.\<close>

lemma matches_id: "matches [Eq ''_id'' (VOid i)] = (\<lambda>d. fst d = i)"
  by (rule ext) (simp add: matches_def doc_dict_def)

lemma matches_pending:
  "matches [Eq ''campaign_id'' (VStr cid), Eq ''status'' (VStr ''pending'')] = pending_for cid"
  by (rule ext) (simp add: matches_def doc_dict_def pending_for_def split: option.splits)

lemma matches_due:
  "matches [Eq ''campaign_id'' (VStr cid), Eq ''status'' (VStr ''requested''),
            LteDate ''last_action_at'' (t - days 3)] = due_for_followup cid t"
  by (rule ext) (auto simp add: matches_def doc_dict_def due_for_followup_def split: option.splits pyval.splits)

lemma update_first_none: "\<not> list_ex P xs \<Longrightarrow> update_first P f xs = xs"
  by (induction xs) simp_all

lemma update_one_plain:
  "db (update_one e coll q sets [] False w) c =
     (if c = coll then update_first (matches q) (apply_set (encode sets)) (db w coll) else db w c)"
  "clock_reads (update_one e coll q sets [] False w) = clock_reads w"
  "random_draws (update_one e coll q sets [] False w) = random_draws w"
  "object_ids (update_one e coll q sets [] False w) = object_ids w"
  by (simp_all add: update_one_def update_first_none)

lemma sent_message_0:
  "sent_message e cid type lo hi s (p # ps) rd cr oid 0 =
     (env_object_id e oid,
      message_doc cid (fst p) type (millis (env_clock e cr + minutes (offset_minutes e lo hi rd)))
        (millis (env_clock e (cr + 1))) (render_template (env_isoformat e) s (doc_dict p)))"
  by (simp add: sent_message_def)

lemma sent_message_Suc:
  "sent_message e cid type lo hi s (p # ps) rd cr oid (Suc i) =
     sent_message e cid type lo hi s ps (Suc rd) (cr + 4) (Suc oid) i"
proof -
  have a: "cr + 4 * Suc i = cr + 4 + 4 * i" "rd + Suc i = Suc rd + i" "oid + Suc i = Suc oid + i"
    by simp_all
  show ?thesis
    unfolding sent_message_def a by (simp only: nth_Cons_Suc)
qed


lemma sent_message_head:
  "sent_message e cid type lo hi s (p # ps) rd cr oid 0 = sent_message e cid type lo hi s [p] rd cr oid 0"
  by (simp add: sent_message_def)

lemma connection_step_unfold:
  "connection_step e cid (VStr s) p w =
     (None,
      update_one e ''prospect'' [Eq ''_id'' (VOid (fst p))]
        [(''status'', VStr ''requested''),
         (''last_action_at'', VDate (env_clock e (clock_reads w + 2))),
         (''updated_at'', VDate (env_clock e (clock_reads w + 3)))] [] False
        (w\<lparr>random_draws := Suc (random_draws w),
           db := (db w)(''messagelog'' := db w ''messagelog'' @
             [sent_message e cid ''connection'' 2 30 s [p] (random_draws w) (clock_reads w) (object_ids w) 0]),
           object_ids := Suc (object_ids w),
           clock_reads := clock_reads w + 4\<rparr>))"
proof -
  have n: "clock_reads w + 2 = Suc (Suc (clock_reads w))"
    "clock_reads w + 3 = Suc (Suc (Suc (clock_reads w)))"
    "clock_reads w + 4 = Suc (Suc (Suc (Suc (clock_reads w))))"
    "clock_reads w + 1 = Suc (clock_reads w)"
    by simp_all
  show ?thesis
    unfolding n sent_message_0 message_doc_def offset_minutes_def
    by (simp add: connection_step_def render_call_def now_def randint_def insert_one_def encode_def)
qed

lemma followup_step_unfold:
  "followup_step e cid (VStr s) p w =
     (None,
      update_one e ''prospect'' [Eq ''_id'' (VOid (fst p))]
        [(''status'', VStr ''followed_up''),
         (''last_action_at'', VDate (env_clock e (clock_reads w + 2))),
         (''updated_at'', VDate (env_clock e (clock_reads w + 3)))] [] False
        (w\<lparr>random_draws := Suc (random_draws w),
           db := (db w)(''messagelog'' := db w ''messagelog'' @
             [sent_message e cid ''followup'' 5 45 s [p] (random_draws w) (clock_reads w) (object_ids w) 0]),
           object_ids := Suc (object_ids w),
           clock_reads := clock_reads w + 4\<rparr>))"
proof -
  have n: "clock_reads w + 2 = Suc (Suc (clock_reads w))"
    "clock_reads w + 3 = Suc (Suc (Suc (clock_reads w)))"
    "clock_reads w + 4 = Suc (Suc (Suc (Suc (clock_reads w))))"
    "clock_reads w + 1 = Suc (clock_reads w)"
    by simp_all
  show ?thesis
    unfolding n sent_message_0 message_doc_def offset_minutes_def
    by (simp add: followup_step_def render_call_def now_def randint_def insert_one_def encode_def)
qed

lemma connection_step_text:
  "fst (connection_step e cid (VStr s) p w) = None"
  "clock_reads (snd (connection_step e cid (VStr s) p w)) = clock_reads w + 4"
  "random_draws (snd (connection_step e cid (VStr s) p w)) = Suc (random_draws w)"
  "object_ids (snd (connection_step e cid (VStr s) p w)) = Suc (object_ids w)"
  "db (snd (connection_step e cid (VStr s) p w)) c =
     (if c = ''prospect''
      then update_first (\<lambda>d. fst d = fst p)
             (advanced ''requested'' (millis (env_clock e (clock_reads w + 2)))
                (millis (env_clock e (clock_reads w + 3))))
             (db w ''prospect'')
      else if c = ''messagelog''
      then db w ''messagelog'' @
             [sent_message e cid ''connection'' 2 30 s [p] (random_draws w) (clock_reads w) (object_ids w) 0]
      else db w c)"
  unfolding connection_step_unfold advanced_def
  by (simp_all add: update_one_plain matches_id encode_def)

lemma followup_step_text:
  "fst (followup_step e cid (VStr s) p w) = None"
  "clock_reads (snd (followup_step e cid (VStr s) p w)) = clock_reads w + 4"
  "random_draws (snd (followup_step e cid (VStr s) p w)) = Suc (random_draws w)"
  "object_ids (snd (followup_step e cid (VStr s) p w)) = Suc (object_ids w)"
  "db (snd (followup_step e cid (VStr s) p w)) c =
     (if c = ''prospect''
      then update_first (\<lambda>d. fst d = fst p)
             (advanced ''followed_up'' (millis (env_clock e (clock_reads w + 2)))
                (millis (env_clock e (clock_reads w + 3))))
             (db w ''prospect'')
      else if c = ''messagelog''
      then db w ''messagelog'' @
             [sent_message e cid ''followup'' 5 45 s [p] (random_draws w) (clock_reads w) (object_ids w) 0]
      else db w c)"
  unfolding followup_step_unfold advanced_def
  by (simp_all add: update_one_plain matches_id encode_def)

lemma sent_messages_Cons:
  "map (sent_message e cid type lo hi s (p # ps) rd cr oid) [0..<Suc (length ps)] =
     sent_message e cid type lo hi s [p] rd cr oid 0 #
     map (sent_message e cid type lo hi s ps (Suc rd) (cr + 4) (Suc oid)) [0..<length ps]"
  by (simp add: map_upt_Suc sent_message_Suc sent_message_0 del: upt_Suc)

lemma connection_loop_text:
  "processed + int (length ps) \<le> daily_limit \<Longrightarrow>
   fst (connection_loop e cid (VStr s) daily_limit ps processed w) = None
   \<and> clock_reads (snd (connection_loop e cid (VStr s) daily_limit ps processed w))
       = clock_reads w + 4 * length ps
   \<and> random_draws (snd (connection_loop e cid (VStr s) daily_limit ps processed w))
       = random_draws w + length ps
   \<and> object_ids (snd (connection_loop e cid (VStr s) daily_limit ps processed w))
       = object_ids w + length ps
   \<and> (\<forall>c. db (snd (connection_loop e cid (VStr s) daily_limit ps processed w)) c =
        (if c = ''prospect''
         then advance_all e ''requested'' (clock_reads w) ps (db w ''prospect'')
         else if c = ''messagelog''
         then db w ''messagelog'' @
                map (sent_message e cid ''connection'' 2 30 s ps
                       (random_draws w) (clock_reads w) (object_ids w)) [0..<length ps]
         else db w c))"
proof (induction ps arbitrary: processed w)
  case Nil
  show ?case by simp
next
  case (Cons p ps)
  define w1 where "w1 = snd (connection_step e cid (VStr s) p w)"
  have step: "connection_step e cid (VStr s) p w = (None, w1)"
    unfolding w1_def using connection_step_text(1) [of e cid s p w] by (simp add: prod_eq_iff)
  have w1s: "clock_reads w1 = clock_reads w + 4" "random_draws w1 = Suc (random_draws w)"
    "object_ids w1 = Suc (object_ids w)"
    "\<And>c. db w1 c =
      (if c = ''prospect''
       then update_first (\<lambda>d. fst d = fst p)
              (advanced ''requested'' (millis (env_clock e (clock_reads w + 2)))
                (millis (env_clock e (clock_reads w + 3))))
              (db w ''prospect'')
       else if c = ''messagelog''
       then db w ''messagelog'' @
              [sent_message e cid ''connection'' 2 30 s [p] (random_draws w) (clock_reads w) (object_ids w) 0]
       else db w c)"
    unfolding w1_def by (rule connection_step_text)+
  have go: "\<not> daily_limit \<le> processed" using Cons.prems by simp
  have unfold: "connection_loop e cid (VStr s) daily_limit (p # ps) processed w =
      connection_loop e cid (VStr s) daily_limit ps (processed + 1) w1"
    using go by (simp add: step)
  have pre: "processed + 1 + int (length ps) \<le> daily_limit" using Cons.prems by simp
  note ih = Cons.IH [OF pre, of w1]
  show ?case
    unfolding unfold length_Cons sent_messages_Cons advance_all.simps
    using ih by (simp add: w1s)
qed


lemma followup_loop_text:
  "fst (followup_loop e cid (VStr s) ps w) = None
   \<and> clock_reads (snd (followup_loop e cid (VStr s) ps w)) = clock_reads w + 4 * length ps
   \<and> random_draws (snd (followup_loop e cid (VStr s) ps w)) = random_draws w + length ps
   \<and> object_ids (snd (followup_loop e cid (VStr s) ps w)) = object_ids w + length ps
   \<and> (\<forall>c. db (snd (followup_loop e cid (VStr s) ps w)) c =
        (if c = ''prospect''
         then advance_all e ''followed_up'' (clock_reads w) ps (db w ''prospect'')
         else if c = ''messagelog''
         then db w ''messagelog'' @
                map (sent_message e cid ''followup'' 5 45 s ps
                       (random_draws w) (clock_reads w) (object_ids w)) [0..<length ps]
         else db w c))"
proof (induction ps arbitrary: w)
  case Nil
  show ?case by simp
next
  case (Cons p ps)
  define w1 where "w1 = snd (followup_step e cid (VStr s) p w)"
  have step: "followup_step e cid (VStr s) p w = (None, w1)"
    unfolding w1_def using followup_step_text(1) [of e cid s p w] by (simp add: prod_eq_iff)
  have w1s: "clock_reads w1 = clock_reads w + 4" "random_draws w1 = Suc (random_draws w)"
    "object_ids w1 = Suc (object_ids w)"
    "\<And>c. db w1 c =
      (if c = ''prospect''
       then update_first (\<lambda>d. fst d = fst p)
              (advanced ''followed_up'' (millis (env_clock e (clock_reads w + 2)))
                (millis (env_clock e (clock_reads w + 3))))
              (db w ''prospect'')
       else if c = ''messagelog''
       then db w ''messagelog'' @
              [sent_message e cid ''followup'' 5 45 s [p] (random_draws w) (clock_reads w) (object_ids w) 0]
       else db w c)"
    unfolding w1_def by (rule followup_step_text)+
  have unfold: "followup_loop e cid (VStr s) (p # ps) w = followup_loop e cid (VStr s) ps w1"
    by (simp add: step)
  note ih = Cons.IH [of w1]
  show ?case
    unfolding unfold length_Cons sent_messages_Cons advance_all.simps
    using ih by (simp add: w1s)
qed

lemma map_fst_update_first: "map fst (update_first P f docs) = map fst docs"
  by (induction docs) simp_all

lemma map_fst_advance_all: "map fst (advance_all e status cr ps docs) = map fst docs"
  by (induction ps arbitrary: cr docs) (simp_all add: map_fst_update_first)

lemma map_of_update_first:
  "map_of (update_first (\<lambda>d. fst d = i) f docs) j =
     (if j = i then map_option f (map_of docs i) else map_of docs j)"
  by (induction docs) auto

lemma map_of_advance_all_other:
  "j \<notin> fst ` set ps \<Longrightarrow> map_of (advance_all e status cr ps docs) j = map_of docs j"
  by (induction ps arbitrary: cr docs) (simp_all add: map_of_update_first)

lemma map_of_advance_all_nth:
  "distinct (map fst ps) \<Longrightarrow> i < length ps \<Longrightarrow>
   map_of (advance_all e status cr ps docs) (fst (ps ! i)) =
     map_option (advanced status (millis (env_clock e (cr + 4 * i + 2)))
                   (millis (env_clock e (cr + 4 * i + 3))))
       (map_of docs (fst (ps ! i)))"
proof (induction ps arbitrary: cr docs i)
  case Nil
  then show ?case by simp
next
  case (Cons p ps)
  show ?case
  proof (cases i)
    case 0
    have "fst p \<notin> fst ` set ps" using Cons.prems(1) by simp
    then show ?thesis
      using 0 by (simp add: map_of_advance_all_other map_of_update_first)
  next
    case (Suc k)
    have k: "k < length ps" using Cons.prems(2) Suc by simp
    have d: "distinct (map fst ps)" using Cons.prems(1) by simp
    have "fst (ps ! k) \<in> fst ` set ps" using k by simp
    moreover have "fst p \<notin> fst ` set ps" using Cons.prems(1) by simp
    ultimately have ne: "fst (ps ! k) \<noteq> fst p" by metis
    have a: "cr + 4 * Suc k + 2 = cr + 4 + 4 * k + 2" "cr + 4 * Suc k + 3 = cr + 4 + 4 * k + 3"
      by simp_all
    show ?thesis
      unfolding Suc a using Cons.IH [OF d k, of "cr + 4"] ne
      by (simp add: map_of_update_first)
  qed
qed

lemma advanced_fields:
  "map_of (advanced status la ua d) ''status'' = Some (VStr status)"
  "map_of (advanced status la ua d) ''last_action_at'' = Some (VDate la)"
  "map_of (advanced status la ua d) ''updated_at'' = Some (VDate ua)"
  "k \<noteq> ''status'' \<Longrightarrow> k \<noteq> ''last_action_at'' \<Longrightarrow> k \<noteq> ''updated_at'' \<Longrightarrow>
     map_of (advanced status la ua d) k = map_of d k"
  by (simp_all add: advanced_def apply_set_def update_conv')

lemma limit_take: "0 < n \<Longrightarrow> limit n docs = take n docs"
  by (simp add: limit_def)

lemma distinct_fst_take_filter:
  "distinct (map fst docs) \<Longrightarrow> distinct (map fst (take n (filter P docs)))"
  by (simp add: distinct_map_filter take_map [symmetric] del: take_map)

subsection \<open>The connection-request phase\<close>

lemma randint_10_20:
  "10 \<le> fst (randint e 10 20 w)" "fst (randint e 10 20 w) \<le> 20"
  "db (snd (randint e 10 20 w)) = db w"
  "clock_reads (snd (randint e 10 20 w)) = clock_reads w"
  "random_draws (snd (randint e 10 20 w)) = Suc (random_draws w)"
  "object_ids (snd (randint e 10 20 w)) = object_ids w"
proof -
  have "env_random e (random_draws w) mod 11 < 11" by simp
  then show "fst (randint e 10 20 w) \<le> 20" by (simp add: randint_def)
qed (simp_all add: randint_def)

lemma pending_cursor_take:
  "0 < daily_limit \<Longrightarrow>
   pending_cursor cid daily_limit w = take (nat daily_limit) (filter (pending_for cid) (db w ''prospect''))"
  by (simp add: pending_cursor_def limit_def find_def matches_pending)

lemma offset_minutes_range:
  "lo \<le> hi \<Longrightarrow> lo \<le> offset_minutes e lo hi i \<and> offset_minutes e lo hi i \<le> hi"
proof -
  assume a: "lo \<le> hi"
  have "env_random e i mod nat (hi - lo + 1) < nat (hi - lo + 1)"
    using a by simp
  then show ?thesis
    using a unfolding offset_minutes_def by linarith
qed

lemma map_of_selected:
  assumes "distinct (map fst docs)" "i < length (take n (filter P docs))"
  shows "map_of docs (fst (take n (filter P docs) ! i)) = Some (snd (take n (filter P docs) ! i))"
proof -
  have "take n (filter P docs) ! i \<in> set (take n (filter P docs))"
    using assms(2) by (rule nth_mem)
  then have "take n (filter P docs) ! i \<in> set docs"
    by (meson in_set_takeD filter_is_subset subsetD)
  then show ?thesis
    using assms(1) by (metis map_of_is_SomeI prod.collapse)
qed

lemma process_automation_phases:
  assumes "fst (templates_of w cid) = VStr s"
  shows "fst (connection_phase e cid (VStr s) (fst (randint e 10 20 w)) (snd (randint e 10 20 w))) = None
    \<Longrightarrow> process_automation e cid w =
      followup_phase e cid (snd (templates_of w cid)) (fst (randint e 10 20 w))
        (snd (connection_phase e cid (VStr s) (fst (randint e 10 20 w)) (snd (randint e 10 20 w))))"
  using assms by (simp add: process_automation_def split_def Let_def split: option.splits)


lemma connection_phase_text:
  assumes "10 \<le> daily_limit" "db w0 = db w" "clock_reads w0 = clock_reads w"
    "random_draws w0 = Suc (random_draws w)" "object_ids w0 = object_ids w"
    "sel = take (nat daily_limit) (filter (pending_for cid) (db w ''prospect''))"
    "w1 = snd (connection_phase e cid (VStr s) daily_limit w0)"
  shows "fst (connection_phase e cid (VStr s) daily_limit w0) = None"
    and "clock_reads w1 = clock_reads w + 4 * length sel"
    and "random_draws w1 = Suc (random_draws w) + length sel"
    and "object_ids w1 = object_ids w + length sel"
    and "db w1 ''prospect'' = advance_all e ''requested'' (clock_reads w) sel (db w ''prospect'')"
    and "db w1 ''messagelog'' = db w ''messagelog'' @
           map (sent_message e cid ''connection'' 2 30 s sel (Suc (random_draws w)) (clock_reads w)
                  (object_ids w)) [0..<length sel]"
    and "c \<noteq> ''prospect'' \<Longrightarrow> c \<noteq> ''messagelog'' \<Longrightarrow> db w1 c = db w c"
proof -
  have cur: "pending_cursor cid daily_limit w0 = sel"
    using assms(1) by (simp add: pending_cursor_take assms(2,6))
  have len: "0 + int (length sel) \<le> daily_limit"
    using assms(1) unfolding assms(6) by simp
  have ph: "connection_phase e cid (VStr s) daily_limit w0 =
      connection_loop e cid (VStr s) daily_limit sel 0 w0"
    by (simp add: connection_phase_def cur)
  note L = connection_loop_text [OF len, of e cid s w0, folded ph, folded assms(7)]
  show "fst (connection_phase e cid (VStr s) daily_limit w0) = None" using L by simp
  show "clock_reads w1 = clock_reads w + 4 * length sel" using L by (simp add: assms)
  show "random_draws w1 = Suc (random_draws w) + length sel" using L by (simp add: assms(4))
  show "object_ids w1 = object_ids w + length sel" using L by (simp add: assms(5))
  show "db w1 ''prospect'' = advance_all e ''requested'' (clock_reads w) sel (db w ''prospect'')"
    using L by (simp add: assms(2,3))
  show "db w1 ''messagelog'' = db w ''messagelog'' @
           map (sent_message e cid ''connection'' 2 30 s sel (Suc (random_draws w)) (clock_reads w)
                  (object_ids w)) [0..<length sel]"
    using L by (simp add: assms(2,3,4,5))
  show "c \<noteq> ''prospect'' \<Longrightarrow> c \<noteq> ''messagelog'' \<Longrightarrow> db w1 c = db w c"
    using L by (simp add: assms(2))
qed




subsection \<open>The follow-up phase\<close>

lemma followup_cursor_take:
  "0 < daily_limit \<Longrightarrow>
   followup_cursor cid daily_limit (t - days 3) w =
     take (nat daily_limit) (filter (due_for_followup cid t) (db w ''prospect''))"
  by (simp add: followup_cursor_def limit_def find_def matches_due)

lemma followup_phase_text:
  assumes "0 < daily_limit"
    "sel = take (nat daily_limit)
             (filter (due_for_followup cid (env_clock e (clock_reads w))) (db w ''prospect''))"
    "w2 = snd (followup_phase e cid (VStr s) daily_limit w)"
  shows "fst (followup_phase e cid (VStr s) daily_limit w) = None"
    and "followup_cursor cid daily_limit (env_clock e (clock_reads w) - days 3) (snd (now e w)) = sel"
    and "clock_reads w2 = Suc (clock_reads w) + 4 * length sel"
    and "random_draws w2 = random_draws w + length sel"
    and "object_ids w2 = object_ids w + length sel"
    and "db w2 ''prospect'' = advance_all e ''followed_up'' (Suc (clock_reads w)) sel (db w ''prospect'')"
    and "db w2 ''messagelog'' = db w ''messagelog'' @
           map (sent_message e cid ''followup'' 5 45 s sel (random_draws w) (Suc (clock_reads w))
                  (object_ids w)) [0..<length sel]"
    and "c \<noteq> ''prospect'' \<Longrightarrow> c \<noteq> ''messagelog'' \<Longrightarrow> db w2 c = db w c"
proof -
  define w0 where "w0 = snd (now e w)"
  have w0s: "db w0 = db w" "clock_reads w0 = Suc (clock_reads w)"
    "random_draws w0 = random_draws w" "object_ids w0 = object_ids w"
    by (simp_all add: w0_def now_def)
  show cur: "followup_cursor cid daily_limit (env_clock e (clock_reads w) - days 3) (snd (now e w)) = sel"
    using assms(1) by (simp add: followup_cursor_take w0s(1) [unfolded w0_def] assms(2))
  have ph: "followup_phase e cid (VStr s) daily_limit w = followup_loop e cid (VStr s) sel w0"
    using cur by (simp add: followup_phase_def now_def w0_def)
  note L = followup_loop_text [of e cid s sel w0, folded ph, folded assms(3)]
  show "fst (followup_phase e cid (VStr s) daily_limit w) = None" using L by simp
  show "clock_reads w2 = Suc (clock_reads w) + 4 * length sel" using L by (simp add: w0s)
  show "random_draws w2 = random_draws w + length sel" using L by (simp add: w0s)
  show "object_ids w2 = object_ids w + length sel" using L by (simp add: w0s)
  show "db w2 ''prospect'' = advance_all e ''followed_up'' (Suc (clock_reads w)) sel (db w ''prospect'')"
    using L by (simp add: w0s)
  show "db w2 ''messagelog'' = db w ''messagelog'' @
           map (sent_message e cid ''followup'' 5 45 s sel (random_draws w) (Suc (clock_reads w))
                  (object_ids w)) [0..<length sel]"
    using L by (simp add: w0s)
  show "c \<noteq> ''prospect'' \<Longrightarrow> c \<noteq> ''messagelog'' \<Longrightarrow> db w2 c = db w c"
    using L by (simp add: w0s)
qed

lemma due_for_followup_iff:
  "due_for_followup cid t p \<longleftrightarrow>
     map_of (snd p) ''campaign_id'' = Some (VStr cid)
     \<and> map_of (snd p) ''status'' = Some (VStr ''requested'')
     \<and> (\<exists>la. map_of (snd p) ''last_action_at'' = Some (VDate la) \<and> la \<le> millis (t - days 3))"
  by (auto simp add: due_for_followup_def split: option.splits pyval.splits)

lemma millis_fixed_le: "millis a = a \<Longrightarrow> a \<le> b \<Longrightarrow> a \<le> millis b"
  using millis_mono [of a b] by simp

subsection \<open>The run on the sample state\<close>

lemma sample_templates: "templates_of sample_world ''c1'' = (VStr ''Hi'', VStr ''Ping'')"
  by (simp add: sample_world_def templates_of_def find_one_def find_def matches_def doc_dict_def
        dict_get_def)

lemma sample_distinct: "distinct (map fst (db sample_world ''prospect''))"
  by (simp add: sample_world_def)

lemma sample_limit: "fst (randint sample_env 10 20 sample_world) = 10"
  by (simp add: randint_def sample_env_def)

lemma sample_pending:
  "take (nat 10) (filter (pending_for ''c1'') (db sample_world ''prospect'')) =
     [(''p1'', [(''campaign_id'', VStr ''c1''), (''first_name'', VStr ''Alex''),
                (''status'', VStr ''pending'')])]"
  by (simp add: pending_for_def sample_world_def)

lemma sample_connection_phase:
  "clock_reads (snd (connection_phase sample_env ''c1'' (VStr ''Hi'') 10
                       (snd (randint sample_env 10 20 sample_world)))) = 4"
  "db (snd (connection_phase sample_env ''c1'' (VStr ''Hi'') 10
              (snd (randint sample_env 10 20 sample_world)))) ''prospect'' =
     [(''p1'', [(''campaign_id'', VStr ''c1''), (''first_name'', VStr ''Alex''),
                (''status'', VStr ''requested''), (''last_action_at'', VDate (days 4)),
                (''updated_at'', VDate (days 4))]),
      (''p2'', [(''campaign_id'', VStr ''c1''), (''first_name'', VStr ''Drew''),
                (''status'', VStr ''requested''), (''last_action_at'', VDate 0)])]"
proof -
  let ?p1 = "(''p1'', [(''campaign_id'', VStr ''c1''), (''first_name'', VStr ''Alex''),
                (''status'', VStr ''pending'')])"
  let ?w1 = "snd (connection_phase sample_env ''c1'' (VStr ''Hi'') 10
                       (snd (randint sample_env 10 20 sample_world)))"
  have "clock_reads ?w1 = clock_reads sample_world + 4 * length [?p1]"
    by (rule connection_phase_text(2)
          [OF order_refl randint_10_20(3-6) sample_pending [symmetric] refl])
  then show "clock_reads ?w1 = 4"
    by (simp add: sample_world_def)
  have "db ?w1 ''prospect'' =
      advance_all sample_env ''requested'' (clock_reads sample_world) [?p1]
        (db sample_world ''prospect'')"
    by (rule connection_phase_text(5)
          [OF order_refl randint_10_20(3-6) sample_pending [symmetric] refl])
  then show "db ?w1 ''prospect'' =
     [(''p1'', [(''campaign_id'', VStr ''c1''), (''first_name'', VStr ''Alex''),
                (''status'', VStr ''requested''), (''last_action_at'', VDate (days 4)),
                (''updated_at'', VDate (days 4))]),
      (''p2'', [(''campaign_id'', VStr ''c1''), (''first_name'', VStr ''Drew''),
                (''status'', VStr ''requested''), (''last_action_at'', VDate 0)])]"
    by (simp add: sample_world_def sample_env_def advanced_def apply_set_def millis_def days_def)
qed

text \<open>
  Claim C2. One run of the engine with text templates and distinct prospect identifiers;
  \<open>w1\<close> is the state after the connection phase, \<open>current_time\<close> the clock reading that
  opens the follow-up phase, \<open>selected\<close> its cursor and \<open>w2\<close> the final state. The run raises
  nothing. A prospect whose last action is less than 3 days before \<open>current_time\<close> is not
  selected. Every selected prospect is a stored prospect of the campaign in status
  \<open>requested\<close> whose last action is 3 days or more before \<open>current_time\<close>; conversely such
  a prospect (its last action a datetime of the store, to the millisecond) is due, and the
  selection is the first \<open>daily_limit\<close> due prospects in stored order, so all of them when
  they are at most \<open>daily_limit\<close>. The message log grows by one record per selected
  prospect, of type \<open>followup\<close> and status \<open>sent\<close>, and every selected prospect is then stored
  with status \<open>followed_up\<close>; every other prospect is as the connection phase left it.
\<close>

theorem followup_phase_spec:
  assumes "templates_of w campaign_id = (VStr s1, VStr s2)"
    and "distinct (map fst (db w ''prospect''))"
  shows
  "(let daily_limit = fst (randint e 10 20 w);
        w1 = snd (connection_phase e campaign_id (VStr s1) daily_limit (snd (randint e 10 20 w)));
        current_time = env_clock e (clock_reads w1);
        selected = followup_cursor campaign_id daily_limit (current_time - days 3) (snd (now e w1));
        w2 = snd (process_automation e campaign_id w)
    in fst (process_automation e campaign_id w) = None
     \<and> process_automation e campaign_id w = followup_phase e campaign_id (VStr s2) daily_limit w1
     \<and> (\<forall>p \<in> set (db w1 ''prospect''). \<forall>t.
           map_of (snd p) ''last_action_at'' = Some (VDate t) \<longrightarrow> current_time - days 3 < t \<longrightarrow>
           p \<notin> set selected)
     \<and> (\<forall>p \<in> set selected.
           p \<in> set (db w1 ''prospect'')
           \<and> map_of (snd p) ''campaign_id'' = Some (VStr campaign_id)
           \<and> map_of (snd p) ''status'' = Some (VStr ''requested'')
           \<and> (\<exists>t. map_of (snd p) ''last_action_at'' = Some (VDate t) \<and> t \<le> current_time - days 3))
     \<and> (\<forall>p t. map_of (snd p) ''campaign_id'' = Some (VStr campaign_id) \<longrightarrow>
           map_of (snd p) ''status'' = Some (VStr ''requested'') \<longrightarrow>
           map_of (snd p) ''last_action_at'' = Some (VDate t) \<longrightarrow> millis t = t \<longrightarrow>
           t \<le> current_time - days 3 \<longrightarrow> due_for_followup campaign_id current_time p)
     \<and> selected = take (nat daily_limit)
                     (filter (due_for_followup campaign_id current_time) (db w1 ''prospect''))
     \<and> (length (filter (due_for_followup campaign_id current_time) (db w1 ''prospect''))
           \<le> nat daily_limit \<longrightarrow>
         selected = filter (due_for_followup campaign_id current_time) (db w1 ''prospect''))
     \<and> db w2 ''messagelog'' = db w1 ''messagelog'' @
         map (\<lambda>i. (env_object_id e (object_ids w1 + i),
                   [(''campaign_id'', VStr campaign_id),
                    (''prospect_id'', VStr (fst (selected ! i))),
                    (''type'', VStr ''followup''),
                    (''status'', VStr ''sent''),
                    (''scheduled_at'',
                       VDate (millis (env_clock e (Suc (clock_reads w1) + 4 * i)
                              + minutes (5 + int (env_random e (random_draws w1 + i) mod 41))))),
                    (''sent_at'', VDate (millis (env_clock e (Suc (clock_reads w1) + 4 * i + 1)))),
                    (''content'',
                       VStr (render_template (env_isoformat e) s2 (doc_dict (selected ! i))))]))
           [0..<length selected]
     \<and> (\<forall>i < length selected. \<exists>d.
           map_of (db w2 ''prospect'') (fst (selected ! i)) = Some d
           \<and> map_of d ''status'' = Some (VStr ''followed_up'')
           \<and> map_of d ''last_action_at'' =
               Some (VDate (millis (env_clock e (Suc (clock_reads w1) + 4 * i + 2))))
           \<and> map_of d ''updated_at'' =
               Some (VDate (millis (env_clock e (Suc (clock_reads w1) + 4 * i + 3))))
           \<and> (\<forall>k. k \<noteq> ''status'' \<longrightarrow> k \<noteq> ''last_action_at'' \<longrightarrow> k \<noteq> ''updated_at'' \<longrightarrow>
                  map_of d k = map_of (snd (selected ! i)) k))
     \<and> map fst (db w2 ''prospect'') = map fst (db w1 ''prospect'')
     \<and> (\<forall>j. j \<notin> fst ` set selected \<longrightarrow>
           map_of (db w2 ''prospect'') j = map_of (db w1 ''prospect'') j)
     \<and> (\<forall>c. c \<noteq> ''prospect'' \<longrightarrow> c \<noteq> ''messagelog'' \<longrightarrow> db w2 c = db w1 c)
     \<and> (\<forall>d. days d = d * 86400000000)
     \<and> (\<forall>t. millis t \<le> t \<and> t < millis t + 1000 \<and> millis t mod 1000 = 0))"
proof -
  define daily_limit where "daily_limit = fst (randint e 10 20 w)"
  define w0 where "w0 = snd (randint e 10 20 w)"
  define sel1 where
    "sel1 = take (nat daily_limit) (filter (pending_for campaign_id) (db w ''prospect''))"
  define w1 where "w1 = snd (connection_phase e campaign_id (VStr s1) daily_limit w0)"
  define T where "T = env_clock e (clock_reads w1)"
  define due where "due = filter (due_for_followup campaign_id T) (db w1 ''prospect'')"
  define sel where "sel = take (nat daily_limit) due"
  define w2 where "w2 = snd (followup_phase e campaign_id (VStr s2) daily_limit w1)"
  have t1: "fst (templates_of w campaign_id) = VStr s1" and t2: "snd (templates_of w campaign_id) = VStr s2"
    using assms(1) by simp_all
  have dl: "10 \<le> daily_limit" "daily_limit \<le> 20"
    unfolding daily_limit_def by (rule randint_10_20)+
  have dl0: "0 < daily_limit" using dl(1) by simp
  have w0s: "db w0 = db w" "clock_reads w0 = clock_reads w"
    "random_draws w0 = Suc (random_draws w)" "object_ids w0 = object_ids w"
    unfolding w0_def by (rule randint_10_20)+
  note P = connection_phase_text [OF dl(1) w0s sel1_def w1_def]
  have sel_eq: "sel = take (nat daily_limit)
      (filter (due_for_followup campaign_id (env_clock e (clock_reads w1))) (db w1 ''prospect''))"
    by (simp add: sel_def due_def T_def)
  note F = followup_phase_text [OF dl0 sel_eq w2_def]
  have run: "process_automation e campaign_id w =
      followup_phase e campaign_id (VStr s2) daily_limit w1"
    using process_automation_phases [OF t1 P(1) [unfolded daily_limit_def w0_def]]
    unfolding t2 daily_limit_def [symmetric] w0_def [symmetric] w1_def [symmetric] .
  have fin: "fst (process_automation e campaign_id w) = None"
    unfolding run by (rule F(1))
  have w2': "snd (process_automation e campaign_id w) = w2"
    unfolding run w2_def ..
  have cur: "followup_cursor campaign_id daily_limit (T - days 3) (snd (now e w1)) = sel"
    unfolding T_def by (rule F(2))
  have d1: "distinct (map fst (db w1 ''prospect''))"
    unfolding P(5) map_fst_advance_all by (rule assms(2))
  have dsel: "distinct (map fst sel)"
    unfolding sel_def due_def by (rule distinct_fst_take_filter [OF d1])
  have sub: "set sel \<subseteq> set due" unfolding sel_def by (rule set_take_subset)
  have never: "p \<notin> set sel"
    if "map_of (snd p) ''last_action_at'' = Some (VDate t)" "T - days 3 < t" for p t
  proof
    assume "p \<in> set sel"
    then have "due_for_followup campaign_id T p" using sub by (auto simp: due_def)
    then have "t \<le> millis (T - days 3)" using that(1) by (auto simp: due_for_followup_iff)
    then show False using that(2) millis_bounds(1) [of "T - days 3"] by simp
  qed
  have elig: "p \<in> set (db w1 ''prospect'')
           \<and> map_of (snd p) ''campaign_id'' = Some (VStr campaign_id)
           \<and> map_of (snd p) ''status'' = Some (VStr ''requested'')
           \<and> (\<exists>t. map_of (snd p) ''last_action_at'' = Some (VDate t) \<and> t \<le> T - days 3)"
    if "p \<in> set sel" for p
  proof -
    have p: "p \<in> set (db w1 ''prospect'')" "due_for_followup campaign_id T p"
      using that sub by (auto simp: due_def)
    then obtain la where "map_of (snd p) ''last_action_at'' = Some (VDate la)"
      "la \<le> millis (T - days 3)"
      by (auto simp: due_for_followup_iff)
    then have "\<exists>t. map_of (snd p) ''last_action_at'' = Some (VDate t) \<and> t \<le> T - days 3"
      using millis_bounds(1) [of "T - days 3"] by auto
    then show ?thesis using p by (simp add: due_for_followup_iff)
  qed
  have conv: "due_for_followup campaign_id T p"
    if "map_of (snd p) ''campaign_id'' = Some (VStr campaign_id)"
      "map_of (snd p) ''status'' = Some (VStr ''requested'')"
      "map_of (snd p) ''last_action_at'' = Some (VDate t)" "millis t = t" "t \<le> T - days 3" for p t
    using that millis_fixed_le [of t "T - days 3"] by (simp add: due_for_followup_iff)
  have all: "sel = due" if "length due \<le> nat daily_limit"
    using that by (simp add: sel_def)
  have msgs: "db w2 ''messagelog'' = db w1 ''messagelog'' @
         map (\<lambda>i. (env_object_id e (object_ids w1 + i),
                   [(''campaign_id'', VStr campaign_id),
                    (''prospect_id'', VStr (fst (sel ! i))),
                    (''type'', VStr ''followup''),
                    (''status'', VStr ''sent''),
                    (''scheduled_at'',
                       VDate (millis (env_clock e (Suc (clock_reads w1) + 4 * i)
                              + minutes (5 + int (env_random e (random_draws w1 + i) mod 41))))),
                    (''sent_at'', VDate (millis (env_clock e (Suc (clock_reads w1) + 4 * i + 1)))),
                    (''content'',
                       VStr (render_template (env_isoformat e) s2 (doc_dict (sel ! i))))]))
           [0..<length sel]"
    unfolding F(7) sent_message_def message_doc_def offset_minutes_def by simp
  have upd: "\<exists>d. map_of (db w2 ''prospect'') (fst (sel ! i)) = Some d
           \<and> map_of d ''status'' = Some (VStr ''followed_up'')
           \<and> map_of d ''last_action_at'' =
               Some (VDate (millis (env_clock e (Suc (clock_reads w1) + 4 * i + 2))))
           \<and> map_of d ''updated_at'' =
               Some (VDate (millis (env_clock e (Suc (clock_reads w1) + 4 * i + 3))))
           \<and> (\<forall>k. k \<noteq> ''status'' \<longrightarrow> k \<noteq> ''last_action_at'' \<longrightarrow> k \<noteq> ''updated_at'' \<longrightarrow>
                  map_of d k = map_of (snd (sel ! i)) k)" if "i < length sel" for i
  proof -
    have "map_of (db w1 ''prospect'') (fst (sel ! i)) = Some (snd (sel ! i))"
      using that unfolding sel_def due_def by (rule map_of_selected [OF d1])
    then have "map_of (db w2 ''prospect'') (fst (sel ! i)) =
        Some (advanced ''followed_up'' (millis (env_clock e (Suc (clock_reads w1) + 4 * i + 2)))
                (millis (env_clock e (Suc (clock_reads w1) + 4 * i + 3))) (snd (sel ! i)))"
      unfolding F(6) map_of_advance_all_nth [OF dsel that] by simp
    then show ?thesis
      by (simp add: advanced_fields)
  qed
  have ids: "map fst (db w2 ''prospect'') = map fst (db w1 ''prospect'')"
    unfolding F(6) by (rule map_fst_advance_all)
  have others: "map_of (db w2 ''prospect'') j = map_of (db w1 ''prospect'') j"
    if "j \<notin> fst ` set sel" for j
    unfolding F(6) using that by (rule map_of_advance_all_other)
  have rest: "db w2 c = db w1 c" if "c \<noteq> ''prospect''" "c \<noteq> ''messagelog''" for c
    using that by (rule F(8))
  have units: "days d = d * 86400000000" for d
    by (simp add: days_def)
  have ms: "millis t \<le> t \<and> t < millis t + 1000 \<and> millis t mod 1000 = 0" for t
    using millis_bounds [of t] by (simp add: millis_def)
  have seldef: "sel = take (nat daily_limit)
      (filter (due_for_followup campaign_id T) (db w1 ''prospect''))"
    by (simp add: sel_def due_def)
  show ?thesis
    unfolding Let_def daily_limit_def [symmetric] w0_def [symmetric] w1_def [symmetric]
      T_def [symmetric] cur w2' due_def [symmetric]
    using fin run never elig conv all msgs upd ids others rest units ms seldef [folded due_def]
    by blast
qed

theorem followup_phase_spec_witness:
  "templates_of sample_world ''c1'' = (VStr ''Hi'', VStr ''Ping'')
   \<and> distinct (map fst (db sample_world ''prospect''))
   \<and> fst (process_automation sample_env ''c1'' sample_world) = None
   \<and> followup_cursor ''c1'' 10
        (env_clock sample_env
           (clock_reads (snd (connection_phase sample_env ''c1'' (VStr ''Hi'') 10
                                (snd (randint sample_env 10 20 sample_world))))) - days 3)
        (snd (now sample_env (snd (connection_phase sample_env ''c1'' (VStr ''Hi'') 10
                                (snd (randint sample_env 10 20 sample_world))))))
      = [(''p2'', [(''campaign_id'', VStr ''c1''), (''first_name'', VStr ''Drew''),
                   (''status'', VStr ''requested''), (''last_action_at'', VDate 0)])]
   \<and> (\<exists>d. map_of (db (snd (process_automation sample_env ''c1'' sample_world)) ''prospect'') ''p2''
            = Some d
          \<and> map_of d ''status'' = Some (VStr ''followed_up'')
          \<and> map_of d ''first_name'' = Some (VStr ''Drew''))"
proof -
  let ?w1 = "snd (connection_phase sample_env ''c1'' (VStr ''Hi'') 10
                       (snd (randint sample_env 10 20 sample_world)))"
  let ?p2 = "(''p2'', [(''campaign_id'', VStr ''c1''), (''first_name'', VStr ''Drew''),
                   (''status'', VStr ''requested''), (''last_action_at'', VDate 0)])"
  note T = followup_phase_spec [OF sample_templates sample_distinct, of sample_env,
      unfolded Let_def sample_limit]
  have fin: "fst (process_automation sample_env ''c1'' sample_world) = None"
    by (rule T [THEN conjunct1])
  have sel: "followup_cursor ''c1'' 10 (env_clock sample_env (clock_reads ?w1) - days 3)
        (snd (now sample_env ?w1)) = [?p2]"
  proof -
    have "followup_cursor ''c1'' 10 (env_clock sample_env (clock_reads ?w1) - days 3)
        (snd (now sample_env ?w1)) =
      take (nat 10) (filter (due_for_followup ''c1'' (env_clock sample_env (clock_reads ?w1)))
        (db ?w1 ''prospect''))"
      by (rule T [THEN conjunct2, THEN conjunct2, THEN conjunct2, THEN conjunct2, THEN conjunct2,
                 THEN conjunct1])
    also have "\<dots> = [?p2]"
      unfolding sample_connection_phase
      by (simp add: due_for_followup_def sample_env_def millis_def days_def)
    finally show ?thesis .
  qed
  obtain d where d:
    "map_of (db (snd (process_automation sample_env ''c1'' sample_world)) ''prospect'') ''p2'' = Some d"
    "map_of d ''status'' = Some (VStr ''followed_up'')"
    "\<And>k. k \<noteq> ''status'' \<Longrightarrow> k \<noteq> ''last_action_at'' \<Longrightarrow> k \<noteq> ''updated_at'' \<Longrightarrow>
       map_of d k = map_of (snd ?p2) k"
    using T [THEN conjunct2, THEN conjunct2, THEN conjunct2, THEN conjunct2, THEN conjunct2,
             THEN conjunct2, THEN conjunct2, THEN conjunct2, THEN conjunct1, unfolded sel,
             rule_format, of 0]
    by auto
  have "map_of d ''first_name'' = Some (VStr ''Drew'')"
    using d(3) [of "''first_name''"] by simp
  then show ?thesis
    using sample_templates sample_distinct fin sel d(1,2) by blast
qed

subsection \<open>The two phases of one run\<close>


lemma map_of_member:
  "distinct (map fst docs) \<Longrightarrow> q \<in> set docs \<Longrightarrow> map_of docs (fst q) = Some (snd q)"
  by (metis map_of_is_SomeI prod.collapse)





subsection \<open>The statuses that are written\<close>

lemma same_or_advanced_refl: "list_all2 same_or_advanced docs docs"
  by (simp add: list_all2_refl same_or_advanced_def)

lemma same_or_advanced_trans:
  "list_all2 same_or_advanced xs ys \<Longrightarrow> list_all2 same_or_advanced ys zs \<Longrightarrow>
   list_all2 same_or_advanced xs zs"
proof (rule list_all2_trans)
  fix a b c
  assume "same_or_advanced a b" "same_or_advanced b c"
  then show "same_or_advanced a c"
    by (auto simp add: same_or_advanced_def status_of_def)
qed

lemma same_or_advanced_update_first:
  assumes "status = ''requested'' \<or> status = ''followed_up''"
  shows "list_all2 same_or_advanced docs (update_first P (advanced status la ua) docs)"
  using assms
  by (induction docs)
     (auto simp add: same_or_advanced_def status_of_def advanced_fields list_all2_refl)

lemma connection_step_prospects:
  "list_all2 same_or_advanced (db w ''prospect'')
     (db (snd (connection_step e cid tmpl p w)) ''prospect'')"
proof (cases tmpl)
  case (VStr s)
  show ?thesis
    unfolding VStr connection_step_text by (simp add: same_or_advanced_update_first)
qed (simp_all add: connection_step_def render_call_def now_def randint_def same_or_advanced_refl)

lemma followup_step_prospects:
  "list_all2 same_or_advanced (db w ''prospect'')
     (db (snd (followup_step e cid tmpl p w)) ''prospect'')"
proof (cases tmpl)
  case (VStr s)
  show ?thesis
    unfolding VStr followup_step_text by (simp add: same_or_advanced_update_first)
qed (simp_all add: followup_step_def render_call_def now_def randint_def same_or_advanced_refl)

lemma connection_loop_prospects:
  "list_all2 same_or_advanced (db w ''prospect'')
     (db (snd (connection_loop e cid tmpl daily_limit cursor processed w)) ''prospect'')"
proof (induction cursor arbitrary: processed w)
  case Nil
  show ?case by (simp add: same_or_advanced_refl)
next
  case (Cons p cursor)
  obtain r w1 where step: "connection_step e cid tmpl p w = (r, w1)"
    by (cases "connection_step e cid tmpl p w")
  have one: "list_all2 same_or_advanced (db w ''prospect'') (db w1 ''prospect'')"
    using connection_step_prospects [of w e cid tmpl p] by (simp add: step)
  show ?case
  proof (cases "daily_limit \<le> processed")
    case True
    then show ?thesis by (simp add: same_or_advanced_refl)
  next
    case False
    show ?thesis
    proof (cases r)
      case None
      have "list_all2 same_or_advanced (db w1 ''prospect'')
          (db (snd (connection_loop e cid tmpl daily_limit cursor (processed + 1) w1)) ''prospect'')"
        by (rule Cons.IH)
      with one show ?thesis
        using False by (simp add: step None same_or_advanced_trans)
    next
      case (Some err)
      with one show ?thesis using False by (simp add: step)
    qed
  qed
qed

lemma followup_loop_prospects:
  "list_all2 same_or_advanced (db w ''prospect'')
     (db (snd (followup_loop e cid tmpl cursor w)) ''prospect'')"
proof (induction cursor arbitrary: w)
  case Nil
  show ?case by (simp add: same_or_advanced_refl)
next
  case (Cons p cursor)
  obtain r w1 where step: "followup_step e cid tmpl p w = (r, w1)"
    by (cases "followup_step e cid tmpl p w")
  have one: "list_all2 same_or_advanced (db w ''prospect'') (db w1 ''prospect'')"
    using followup_step_prospects [of w e cid tmpl p] by (simp add: step)
  show ?case
  proof (cases r)
    case None
    have "list_all2 same_or_advanced (db w1 ''prospect'')
        (db (snd (followup_loop e cid tmpl cursor w1)) ''prospect'')"
      by (rule Cons.IH)
    with one show ?thesis
      by (simp add: step None same_or_advanced_trans)
  next
    case (Some err)
    with one show ?thesis by (simp add: step)
  qed
qed

lemma process_automation_prospects:
  "list_all2 same_or_advanced (db w ''prospect'')
     (db (snd (process_automation e cid w)) ''prospect'')"
proof -
  obtain ct ft where t: "templates_of w cid = (ct, ft)" by (cases "templates_of w cid")
  define dl where "dl = fst (randint e 10 20 w)"
  define w0 where "w0 = snd (randint e 10 20 w)"
  obtain r w1 where ph: "connection_phase e cid ct dl w0 = (r, w1)"
    by (cases "connection_phase e cid ct dl w0")
  have w0: "db w0 = db w" unfolding w0_def by (rule randint_10_20)
  have one: "list_all2 same_or_advanced (db w ''prospect'') (db w1 ''prospect'')"
    using connection_loop_prospects [of w0 e cid ct dl "pending_cursor cid dl w0" 0]
    by (simp add: ph [unfolded connection_phase_def] w0)
  have two: "list_all2 same_or_advanced (db w1 ''prospect'')
      (db (snd (followup_phase e cid ft dl w1)) ''prospect'')"
    using followup_loop_prospects [of "snd (now e w1)" e cid ft]
    by (simp add: followup_phase_def now_def)
  have run: "process_automation e cid w =
      (case r of Some err \<Rightarrow> (Some err, w1) | None \<Rightarrow> followup_phase e cid ft dl w1)"
    using ph by (simp add: process_automation_def t split_def dl_def w0_def split: option.splits)
  show ?thesis
    unfolding run using one two by (cases r) (simp_all add: same_or_advanced_trans)
qed


lemma create_campaign_prospects:
  "db (snd (create_campaign e payload w)) ''prospect'' = db w ''prospect''"
  by (cases payload) (simp add: now_def insert_one_def Let_def)

lemma upload_companies_prospects:
  "db (snd (upload_companies e cid content_type reader w)) ''prospect'' = db w ''prospect''"
  using upload_rows_eq [of e cid reader 0 w "''prospect''"]
  by (simp add: upload_companies_def split_def Let_def)

lemma upsert_templates_prospects:
  "db (snd (upsert_templates e payload w)) ''prospect'' = db w ''prospect''"
  by (cases payload) (simp add: now_def update_one_def insert_one_def Let_def)

lemma search_prospects:
  "\<exists>new. db (snd (search_and_create_prospects e cid payload w)) ''prospect'' =
           db w ''prospect'' @ new
         \<and> list_all (\<lambda>p. status_of p = Some (VStr ''pending'')) new"
proof (cases payload)
  case (ProspectSearchRequest q)
  let ?cs = "map doc_dict (find w ''company'' [Eq ''campaign_id'' (VStr cid)])"
  show ?thesis
  proof (cases "?cs = []")
    case True
    then have "db (snd (search_and_create_prospects e cid payload w)) ''prospect'' =
        db w ''prospect'' @ []"
      by (simp add: ProspectSearchRequest)
    moreover have "list_all (\<lambda>p. status_of p = Some (VStr ''pending'')) []" by simp
    ultimately show ?thesis by blast
  next
    case False
    let ?new = "map (created_prospect e cid q ?cs (random_draws w) (clock_reads w) (object_ids w))
        [0..<2 * length ?cs]"
    have "db (snd (search_and_create_prospects e cid payload w)) ''prospect'' =
        db w ''prospect'' @ ?new"
      using False create_prospects_eq [of e cid q ?cs 0 w "''prospect''"]
      by (simp add: ProspectSearchRequest split_def Let_def del: upt_Suc)
    moreover have "list_all (\<lambda>p. status_of p = Some (VStr ''pending'')) ?new"
      by (simp add: list_all_iff status_of_def created_prospect_fields del: upt_Suc)
    ultimately show ?thesis by blast
  qed
qed

lemma start_automation_prospects:
  "list_all2 same_or_advanced (db w ''prospect'')
     (db (snd (start_automation e payload w)) ''prospect'')"
  by (cases payload) (simp add: process_automation_prospects)

lemma written_status_advanced:
  "list_all2 same_or_advanced xs ys \<Longrightarrow> list_all written_status xs \<Longrightarrow> list_all written_status ys"
proof (induction rule: list_all2_induct)
  case Nil
  show ?case by simp
next
  case (Cons x xs y ys)
  then show ?case
    by (auto simp add: same_or_advanced_def written_status_def status_of_def)
qed

lemma handle_written_status:
  "list_all written_status (db w ''prospect'') \<Longrightarrow>
   list_all written_status (db (handle e request w) ''prospect'')"
proof (cases request)
  case (CreateCampaign payload)
  assume "list_all written_status (db w ''prospect'')"
  then show ?thesis by (simp add: CreateCampaign create_campaign_prospects)
next
  case (UploadCompanies cid content_type reader)
  assume "list_all written_status (db w ''prospect'')"
  then show ?thesis by (simp add: UploadCompanies upload_companies_prospects)
next
  case (UpsertTemplates payload)
  assume "list_all written_status (db w ''prospect'')"
  then show ?thesis by (simp add: UpsertTemplates upsert_templates_prospects)
next
  case (SearchProspects cid payload)
  assume a: "list_all written_status (db w ''prospect'')"
  obtain new where new: "db (snd (search_and_create_prospects e cid payload w)) ''prospect'' =
           db w ''prospect'' @ new" "list_all (\<lambda>p. status_of p = Some (VStr ''pending'')) new"
    using search_prospects [of e cid payload w] by blast
  have "list_all written_status new"
    using new(2) by (simp add: list_all_iff written_status_def)
  then show ?thesis using a by (simp add: SearchProspects new(1))
next
  case (StartAutomation payload)
  assume "list_all written_status (db w ''prospect'')"
  then show ?thesis
    using written_status_advanced [OF start_automation_prospects [of w e payload]]
    by (simp add: StartAutomation)
qed

lemma handle_all_written_status:
  "list_all written_status (db w ''prospect'') \<Longrightarrow>
   list_all written_status (db (fold (handle e) requests w) ''prospect'')"
  by (induction requests arbitrary: w) (simp_all add: handle_written_status)

text \<open>
  Claim C8. Creating a campaign, uploading companies and upserting templates leave the
  prospect collection as it is. The prospect search only appends prospects, each with
  status \<open>pending\<close>. The engine, whatever the templates and whether or not it raises, keeps
  the prospects and their order, and each of them is untouched or has status \<open>requested\<close>
  or \<open>followed_up\<close>. Hence, from a state in which every prospect has one of the three
  statuses \<open>pending\<close>, \<open>requested\<close>, \<open>followed_up\<close> (the empty store, for one), every sequence
  of requests leads to such a state: no prospect ever has another status.
\<close>

theorem prospect_statuses_written:
  "db (snd (create_campaign e campaign w)) ''prospect'' = db w ''prospect''
   \<and> db (snd (upload_companies e campaign_id content_type reader w)) ''prospect'' = db w ''prospect''
   \<and> db (snd (upsert_templates e templates w)) ''prospect'' = db w ''prospect''
   \<and> (\<exists>new. db (snd (search_and_create_prospects e campaign_id search w)) ''prospect'' =
              db w ''prospect'' @ new
            \<and> list_all (\<lambda>p. status_of p = Some (VStr ''pending'')) new)
   \<and> list_all2 same_or_advanced (db w ''prospect'')
        (db (snd (start_automation e automation w)) ''prospect'')
   \<and> (list_all written_status (db w ''prospect'') \<longrightarrow>
        list_all written_status (db (fold (handle e) requests w) ''prospect''))
   \<and> (\<forall>p. written_status p \<longrightarrow>
          status_of p \<noteq> Some (VStr ''accepted'') \<and> status_of p \<noteq> Some (VStr ''replied'')
          \<and> status_of p \<noteq> Some (VStr ''stopped''))"
  using create_campaign_prospects [of e campaign w]
    upload_companies_prospects [of e campaign_id content_type reader w]
    upsert_templates_prospects [of e templates w]
    search_prospects [of e campaign_id search w]
    start_automation_prospects [of w e automation]
    handle_all_written_status [of w e requests]
  by (simp add: written_status_def)

theorem prospect_statuses_written_witness:
  "list_all written_status (db sample_world ''prospect'')
   \<and> list_all written_status
        (db (fold (handle sample_env)
               [UploadCompanies ''c1'' (Some ''text/csv'') [[(''Company Name'', ''Acme'')]],
                SearchProspects ''c1'' (ProspectSearchRequest ''CTO''),
                StartAutomation (AutomationStart ''c1''),
                StartAutomation (AutomationStart ''c1'')]
               sample_world) ''prospect'')
   \<and> written_status (''p1'', [(''status'', VStr ''pending'')])
   \<and> status_of (''p1'', [(''status'', VStr ''pending'')]) \<noteq> Some (VStr ''accepted'')"
proof -
  have h: "list_all written_status (db sample_world ''prospect'')"
    by (simp add: sample_world_def written_status_def status_of_def)
  note T = prospect_statuses_written [where w = sample_world and e = sample_env and requests =
      "[UploadCompanies ''c1'' (Some ''text/csv'') [[(''Company Name'', ''Acme'')]],
        SearchProspects ''c1'' (ProspectSearchRequest ''CTO''),
        StartAutomation (AutomationStart ''c1''),
        StartAutomation (AutomationStart ''c1'')]"]
  have "list_all written_status
        (db (fold (handle sample_env)
               [UploadCompanies ''c1'' (Some ''text/csv'') [[(''Company Name'', ''Acme'')]],
                SearchProspects ''c1'' (ProspectSearchRequest ''CTO''),
                StartAutomation (AutomationStart ''c1''),
                StartAutomation (AutomationStart ''c1'')]
               sample_world) ''prospect'')"
    using T [THEN conjunct2, THEN conjunct2, THEN conjunct2, THEN conjunct2, THEN conjunct2,
             THEN conjunct1] h
    by (rule mp)
  moreover have "written_status (''p1'', [(''status'', VStr ''pending'')])"
    by (simp add: written_status_def status_of_def)
  moreover have "status_of (''p1'', [(''status'', VStr ''pending'')]) \<noteq> Some (VStr ''accepted'')"
    by (simp add: status_of_def)
  ultimately show ?thesis using h by simp
qed

end
